theory Spec2Isabelle
  imports Complex_Main
begin

section \<open>Data model\<close>

text \<open>
  The module \<open>utils/plex.py\<close> reconciles a list of track descriptors against a Plex
  server.  Everything outside the module is made explicit here: the Python exceptions it
  catches or lets through, the objects it receives from \<open>plexapi\<close>, and the calls it
  makes to the server, the file system and the logger.

  Exceptions are values.  \<open>BadRequest\<close> and \<open>NotFound\<close> are the two \<open>plexapi\<close>
  classes the module names, \<open>IndexError\<close> is the built-in one it names, and
  \<open>OtherException c\<close> stands for any other subclass \<open>c\<close> of Python's \<open>Exception\<close>.
  A constructor stands for its class together with the subclasses of that class, as an
  \<open>except\<close> clause catches them: \<open>BadRequest\<close> includes \<open>Unauthorized\<close>.
\<close>

datatype exn = BadRequest | NotFound | IndexError | OtherException string

text \<open>A \<open>PlexServer\<close> object is identified by a number.\<close>

type_synonym handle = nat

text \<open>
  A track object returned by a search.  Reading \<open>s.artist().title\<close> or
  \<open>s.album().title\<close> either yields a string or raises.
\<close>

record plex_track =
  ratingKey :: nat
  artist_title :: "exn + string"
  album_title :: "exn + string"

text \<open>
  The classes \<open>Track\<close>, \<open>Playlist\<close> and \<open>UserInputs\<close> of \<open>helperClasses\<close>, with the
  fields the module reads.  A description or poster that is \<open>None\<close> or empty is the
  empty string: both are false in a Python condition.
\<close>

record track =
  title :: string
  artist :: string
  album :: string
  url :: string

record playlist =
  name :: string
  description :: string
  poster :: string

record userInputs =
  plex_url :: string
  plex_token :: string
  write_missing_as_csv :: bool
  append_instead_of_sync :: bool
  add_playlist_poster :: bool
  add_playlist_description :: bool

text \<open>A playlist object of \<open>plexapi\<close>: the server object it was fetched through and its title.\<close>

type_synonym plex_playlist = "handle \<times> string"

section \<open>The outside world\<close>

text \<open>
  Every call that leaves the module is recorded as an event, in the order in which it is
  made.  The handle in an event is the \<open>PlexServer\<close> object the call goes through.
\<close>

datatype event =
    NewServer string string nat
  | Sleep nat
  | Search handle string string nat
  | GetPlaylist handle string
  | Items handle string
  | RemoveItems handle string "plex_track list"
  | AddItems handle string "plex_track list"
  | CreatePlaylist handle string "plex_track list"
  | Edit handle string string
  | UploadPoster handle string string
  | WriteCsv string "string list list"
  | DeleteCsv string
  | Log string "string list"

text \<open>
  The state the module changes: the events so far, the playlists of the server (title to
  items) and the csv files under \<open>/data\<close> (name to rows).
\<close>

record world =
  trace :: "event list"
  playlists :: "string \<rightharpoonup> plex_track list"
  files :: "string \<rightharpoonup> string list list"

text \<open>
  What the module does not decide.  A reply may depend on everything that happened before
  (the trace) and on the arguments of the call.
  \<^item> \<open>connect_reply\<close>: the outcome of constructing a \<open>PlexServer\<close>.
  \<^item> \<open>search_reply\<close>: the outcome of \<open>plexServer.search\<close>.
  \<^item> \<open>fault\<close>: whether one of the remaining calls raises, and what.
  \<^item> \<open>quick_ratio\<close>: \<open>SequenceMatcher(None, a, b).quick_ratio()\<close> of \<open>difflib\<close>, as the
    exact value of the ratio; \<open>lower\<close>: \<open>str.lower\<close>.
  \<^item> \<open>iter_track\<close>: the objects that iterating a track object yields (\<open>list.extend\<close>
    iterates its argument).
  \<^item> \<open>track_annotations\<close>: the keys of \<open>Track.__annotations__\<close>.
\<close>

record env =
  connect_reply :: "event list \<Rightarrow> exn + handle"
  search_reply :: "event list \<Rightarrow> handle \<Rightarrow> string \<Rightarrow> string \<Rightarrow> nat \<Rightarrow> exn + plex_track list"
  fault :: "event list \<Rightarrow> event \<Rightarrow> exn option"
  quick_ratio :: "string \<Rightarrow> string \<Rightarrow> rat"
  lower :: "string \<Rightarrow> string"
  iter_track :: "plex_track \<Rightarrow> plex_track list"
  track_annotations :: "string list"

definition emit :: "event \<Rightarrow> world \<Rightarrow> world" where
  "emit ev w = w\<lparr>trace := trace w @ [ev]\<rparr>"

definition logging_info :: "string \<Rightarrow> string list \<Rightarrow> world \<Rightarrow> world" where
  "logging_info fmt args w = emit (Log fmt args) w"

definition time_sleep :: "nat \<Rightarrow> world \<Rightarrow> world" where
  "time_sleep n w = emit (Sleep n) w"

definition PlexServer ::
  "env \<Rightarrow> string \<Rightarrow> string \<Rightarrow> nat \<Rightarrow> world \<Rightarrow> (exn + handle) \<times> world" where
  "PlexServer E u tok timeout w =
     (connect_reply E (trace w), emit (NewServer u tok timeout) w)"

definition plex_search ::
  "env \<Rightarrow> handle \<Rightarrow> string \<Rightarrow> string \<Rightarrow> nat \<Rightarrow> world \<Rightarrow> (exn + plex_track list) \<times> world" where
  "plex_search E h q mediatype limit w =
     (search_reply E (trace w) h q mediatype limit, emit (Search h q mediatype limit) w)"

text \<open>
  The playlist calls of \<open>plexapi\<close>.  Each is recorded, raises what \<open>fault\<close> says, and
  otherwise acts on the playlists of the server: \<open>plex.playlist\<close> raises \<open>NotFound\<close>
  when no playlist has the title, \<open>removeItems\<close> removes the given items one by one,
  \<open>addItems\<close> adds at the end, \<open>createPlaylist\<close> stores a new playlist.
\<close>

definition server_playlist ::
  "env \<Rightarrow> handle \<Rightarrow> string \<Rightarrow> world \<Rightarrow> (exn + plex_playlist) \<times> world" where
  "server_playlist E h nm w =
     (let ev = GetPlaylist h nm; w1 = emit ev w in
      case fault E (trace w) ev of
        Some e \<Rightarrow> (Inl e, w1)
      | None \<Rightarrow>
          (case playlists w nm of
             None \<Rightarrow> (Inl NotFound, w1)
           | Some xs \<Rightarrow> (Inr (h, nm), w1)))"

definition playlist_items ::
  "env \<Rightarrow> plex_playlist \<Rightarrow> world \<Rightarrow> (exn + plex_track list) \<times> world" where
  "playlist_items E pl w =
     (let ev = Items (fst pl) (snd pl); w1 = emit ev w in
      case fault E (trace w) ev of
        Some e \<Rightarrow> (Inl e, w1)
      | None \<Rightarrow>
          (case playlists w (snd pl) of
             None \<Rightarrow> (Inl NotFound, w1)
           | Some xs \<Rightarrow> (Inr xs, w1)))"

definition removeItems ::
  "env \<Rightarrow> plex_playlist \<Rightarrow> plex_track list \<Rightarrow> world \<Rightarrow> (exn + unit) \<times> world" where
  "removeItems E pl its w =
     (let ev = RemoveItems (fst pl) (snd pl) its; w1 = emit ev w in
      case fault E (trace w) ev of
        Some e \<Rightarrow> (Inl e, w1)
      | None \<Rightarrow>
          (case playlists w (snd pl) of
             None \<Rightarrow> (Inl NotFound, w1)
           | Some xs \<Rightarrow>
               (Inr (), w1\<lparr>playlists :=
                  (playlists w1)(snd pl \<mapsto> foldl (\<lambda>ys x. remove1 x ys) xs its)\<rparr>)))"

definition addItems ::
  "env \<Rightarrow> plex_playlist \<Rightarrow> plex_track list \<Rightarrow> world \<Rightarrow> (exn + unit) \<times> world" where
  "addItems E pl its w =
     (let ev = AddItems (fst pl) (snd pl) its; w1 = emit ev w in
      case fault E (trace w) ev of
        Some e \<Rightarrow> (Inl e, w1)
      | None \<Rightarrow>
          (case playlists w (snd pl) of
             None \<Rightarrow> (Inl NotFound, w1)
           | Some xs \<Rightarrow>
               (Inr (), w1\<lparr>playlists := (playlists w1)(snd pl \<mapsto> xs @ its)\<rparr>)))"

definition createPlaylist ::
  "env \<Rightarrow> handle \<Rightarrow> string \<Rightarrow> plex_track list \<Rightarrow> world \<Rightarrow> (exn + unit) \<times> world" where
  "createPlaylist E h nm its w =
     (let ev = CreatePlaylist h nm its; w1 = emit ev w in
      case fault E (trace w) ev of
        Some e \<Rightarrow> (Inl e, w1)
      | None \<Rightarrow> (Inr (), w1\<lparr>playlists := (playlists w1)(nm \<mapsto> its)\<rparr>))"

definition playlist_edit ::
  "env \<Rightarrow> plex_playlist \<Rightarrow> string \<Rightarrow> world \<Rightarrow> (exn + unit) \<times> world" where
  "playlist_edit E pl summary w =
     (let ev = Edit (fst pl) (snd pl) summary; w1 = emit ev w in
      case fault E (trace w) ev of
        Some e \<Rightarrow> (Inl e, w1)
      | None \<Rightarrow> (Inr (), w1))"

definition uploadPoster ::
  "env \<Rightarrow> plex_playlist \<Rightarrow> string \<Rightarrow> world \<Rightarrow> (exn + unit) \<times> world" where
  "uploadPoster E pl u w =
     (let ev = UploadPoster (fst pl) (snd pl) u; w1 = emit ev w in
      case fault E (trace w) ev of
        Some e \<Rightarrow> (Inl e, w1)
      | None \<Rightarrow> (Inr (), w1))"

section \<open>Connection and guarded search\<close>

text \<open>
  \<open>createPlexServer\<close> (lines 18-25): the bare \<open>except\<close> catches whatever the
  constructor raises, waits and calls itself again.  Taken without the bound on the call
  stack (which follows below), it may never return, which is the value \<open>None\<close>.
\<close>

partial_function (option) createPlexServer ::
  "env \<Rightarrow> userInputs \<Rightarrow> world \<Rightarrow> ((exn + handle) \<times> world) option" where
  "createPlexServer E U w =
     (case PlexServer E (plex_url U) (plex_token U) 90
             (logging_info ''Try to create a new plex server object'' [] w) of
        (Inr h, w1) \<Rightarrow> Some (Inr h, w1)
      | (Inl e, w1) \<Rightarrow>
          createPlexServer E U
            (time_sleep 5
               (logging_info ''Error while creating. waiting for 5sek and try again'' [] w1)))"

declare createPlexServer.simps [code]

text \<open>
  \<open>saveSearch\<close> (lines 27-36) returns the pair of the server object and the results,
  where \<open>None\<close> for the results is Python's \<open>None\<close>.
\<close>

partial_function (option) saveSearch ::
  "env \<Rightarrow> userInputs \<Rightarrow> handle \<Rightarrow> string \<Rightarrow> string \<Rightarrow> nat \<Rightarrow> world
     \<Rightarrow> ((exn + handle \<times> plex_track list option) \<times> world) option" where
  "saveSearch E U plexServer searchString mediatype limit w =
     (case plex_search E plexServer searchString mediatype limit w of
        (Inr rs, w1) \<Rightarrow> Some (Inr (plexServer, Some rs), w1)
      | (Inl e, w1) \<Rightarrow>
          if e = BadRequest
          then Some (Inr (plexServer, None),
                     logging_info ''failed to search %s on plex'' [searchString] w1)
          else
            (case createPlexServer E U
                    (logging_info ''exception while searching for %s '' [searchString] w1) of
               None \<Rightarrow> None
             | Some (Inl e', w2) \<Rightarrow> Some (Inl e', w2)
             | Some (Inr plexServer', w2) \<Rightarrow>
                 saveSearch E U plexServer' searchString mediatype limit w2))"

declare saveSearch.simps [code]

text \<open>
  Both functions retry by calling themselves from inside the exception handler, so every
  failed attempt leaves one more frame on the call stack of the interpreter, and the call
  that no longer fits raises \<open>RecursionError\<close> where it is made: in the handler,
  outside every \<open>try\<close>, so that it reaches the caller.  The two functions above leave
  the bound out: they describe the runs that stay within it, and a run that retries for
  ever is \<open>None\<close>.  The two functions below carry the number of nested calls of these
  functions that still fit on the stack (fewer than the 1000 frames Python allows by
  default); they always return.
\<close>

fun createPlexServer_on_stack ::
  "nat \<Rightarrow> env \<Rightarrow> userInputs \<Rightarrow> world \<Rightarrow> (exn + handle) \<times> world" where
  "createPlexServer_on_stack 0 E U w = (Inl (OtherException ''RecursionError''), w)"
| "createPlexServer_on_stack (Suc d) E U w =
     (case PlexServer E (plex_url U) (plex_token U) 90
             (logging_info ''Try to create a new plex server object'' [] w) of
        (Inr h, w1) \<Rightarrow> (Inr h, w1)
      | (Inl e, w1) \<Rightarrow>
          createPlexServer_on_stack d E U
            (time_sleep 5
               (logging_info ''Error while creating. waiting for 5sek and try again'' [] w1)))"

fun saveSearch_on_stack ::
  "nat \<Rightarrow> env \<Rightarrow> userInputs \<Rightarrow> handle \<Rightarrow> string \<Rightarrow> string \<Rightarrow> nat \<Rightarrow> world
     \<Rightarrow> (exn + handle \<times> plex_track list option) \<times> world" where
  "saveSearch_on_stack 0 E U plexServer searchString mediatype limit w =
     (Inl (OtherException ''RecursionError''), w)"
| "saveSearch_on_stack (Suc d) E U plexServer searchString mediatype limit w =
     (case plex_search E plexServer searchString mediatype limit w of
        (Inr rs, w1) \<Rightarrow> (Inr (plexServer, Some rs), w1)
      | (Inl e, w1) \<Rightarrow>
          if e = BadRequest
          then (Inr (plexServer, None),
                logging_info ''failed to search %s on plex'' [searchString] w1)
          else
            (case createPlexServer_on_stack d E U
                    (logging_info ''exception while searching for %s '' [searchString] w1) of
               (Inl e', w2) \<Rightarrow> (Inl e', w2)
             | (Inr plexServer', w2) \<Rightarrow>
                 saveSearch_on_stack d E U plexServer' searchString mediatype limit w2))"

section \<open>The missing-tracks file\<close>

text \<open>
  \<open>_write_csv\<close> (lines 39-59) writes the header and one row per track; \<open>_delete_csv\<close>
  (lines 62-71) unlinks the file, which raises when there is none.
\<close>

definition write_csv :: "env \<Rightarrow> track list \<Rightarrow> string \<Rightarrow> world \<Rightarrow> (exn + unit) \<times> world" where
  "write_csv E tracks nm w =
     (let rows = track_annotations E # map (\<lambda>t. [title t, artist t, album t, url t]) tracks;
          ev = WriteCsv nm rows;
          w1 = emit ev w in
      case fault E (trace w) ev of
        Some e \<Rightarrow> (Inl e, w1)
      | None \<Rightarrow> (Inr (), w1\<lparr>files := (files w1)(nm \<mapsto> rows)\<rparr>))"

definition delete_csv :: "env \<Rightarrow> string \<Rightarrow> world \<Rightarrow> (exn + unit) \<times> world" where
  "delete_csv E nm w =
     (let ev = DeleteCsv nm; w1 = emit ev w in
      case fault E (trace w) ev of
        Some e \<Rightarrow> (Inl e, w1)
      | None \<Rightarrow>
          (case files w nm of
             None \<Rightarrow> (Inl (OtherException ''FileNotFoundError''), w1)
           | Some rows \<Rightarrow> (Inr (), w1\<lparr>files := (files w1)(nm := None)\<rparr>)))"

section \<open>Resolving the tracks\<close>

text \<open>Python's \<open>str.split(sep)\<close> for a separator of one character, and \<open>xs[0]\<close>.\<close>

fun str_split :: "char \<Rightarrow> string \<Rightarrow> string list" where
  "str_split c [] = [[]]"
| "str_split c (x # xs) =
     (if x = c then [] # str_split c xs
      else (case str_split c xs of
              [] \<Rightarrow> [[x]]
            | p # ps \<Rightarrow> (x # p) # ps))"

definition subscript0 :: "'a list \<Rightarrow> exn + 'a" where
  "subscript0 xs = (case xs of [] \<Rightarrow> Inl IndexError | x # ys \<Rightarrow> Inr x)"

text \<open>
  Lines 90-94: the second, relaxed query.  The condition is
  \<open>search != None and ((not search) or len(track.title.split("(")) > 1)\<close>.
\<close>

definition retry_search ::
  "env \<Rightarrow> userInputs \<Rightarrow> track \<Rightarrow> handle \<Rightarrow> plex_track list option \<Rightarrow> world
     \<Rightarrow> ((exn + handle \<times> plex_track list option) \<times> world) option" where
  "retry_search E U t plex search w =
     (case search of
        None \<Rightarrow> Some (Inr (plex, search), w)
      | Some cs \<Rightarrow>
          if cs = [] \<or> 1 < length (str_split CHR ''('' (title t))
          then
            (let w1 = logging_info ''retrying search for %s'' [title t] w in
             case subscript0 (str_split CHR ''('' (title t)) of
               Inl e \<Rightarrow> Some (Inl e, w1)
             | Inr q \<Rightarrow>
                 (case saveSearch E U plex q ''track'' 5 w1 of
                    None \<Rightarrow> None
                  | Some (Inl e, w2) \<Rightarrow> Some (Inl e, w2)
                  | Some (Inr (plex', searchNew), w2) \<Rightarrow>
                      (case searchNew of
                         None \<Rightarrow> Some (Inr (plex', Some cs), w2)
                       | Some ns \<Rightarrow> Some (Inr (plex', Some (cs @ ns)), w2))))
          else Some (Inr (plex, search), w))"

text \<open>
  Lines 98-123: the loop over the candidates.  It returns the candidate at which it
  breaks, or \<open>None\<close> when it runs to the end; only \<open>IndexError\<close> is caught.
\<close>

fun for_s_in_search ::
  "env \<Rightarrow> track \<Rightarrow> plex_track list \<Rightarrow> world \<Rightarrow> (exn + plex_track option) \<times> world" where
  "for_s_in_search E t [] w = (Inr None, w)"
| "for_s_in_search E t (s # ss) w =
     (case artist_title s of
        Inl e \<Rightarrow>
          if e = IndexError
          then for_s_in_search E t ss
                 (logging_info
                    ''Looks like plex mismatched the search for %s, retrying with next result''
                    [title t] w)
          else (Inl e, w)
      | Inr a \<Rightarrow>
          if 9 / 10 \<le> quick_ratio E (lower E a) (lower E (artist t))
          then (Inr (Some s), w)
          else
            (case album_title s of
               Inl e \<Rightarrow>
                 if e = IndexError
                 then for_s_in_search E t ss
                        (logging_info
                           ''Looks like plex mismatched the search for %s, retrying with next result''
                           [title t] w)
                 else (Inl e, w)
             | Inr b \<Rightarrow>
                 if 9 / 10 \<le> quick_ratio E (lower E b) (lower E (album t))
                 then (Inr (Some s), w)
                 else for_s_in_search E t ss w))"

text \<open>
  Lines 86-125: the body of the loop over the tracks, on the loop's variables \<open>plex\<close>,
  \<open>plex_tracks\<close> and \<open>missing_tracks\<close>.
\<close>

definition track_body ::
  "env \<Rightarrow> userInputs \<Rightarrow> track \<Rightarrow> handle \<times> plex_track list \<times> track list \<Rightarrow> world
     \<Rightarrow> ((exn + handle \<times> plex_track list \<times> track list) \<times> world) option" where
  "track_body E U t st w =
     (case st of (plex, plex_tracks, missing_tracks) \<Rightarrow>
       (case saveSearch E U plex (title t) ''track'' 5 w of
          None \<Rightarrow> None
        | Some (Inl e, w1) \<Rightarrow> Some (Inl e, w1)
        | Some (Inr (plex1, search), w1) \<Rightarrow>
            (case retry_search E U t plex1 search w1 of
               None \<Rightarrow> None
             | Some (Inl e, w2) \<Rightarrow> Some (Inl e, w2)
             | Some (Inr (plex2, search2), w2) \<Rightarrow>
                 (case for_s_in_search E t (case search2 of None \<Rightarrow> [] | Some cs \<Rightarrow> cs) w2 of
                    (Inl e, w3) \<Rightarrow> Some (Inl e, w3)
                  | (Inr (Some s), w3) \<Rightarrow>
                      Some (Inr (plex2, plex_tracks @ iter_track E s, missing_tracks), w3)
                  | (Inr None, w3) \<Rightarrow>
                      Some (Inr (plex2, plex_tracks, missing_tracks @ [t]), w3)))))"

fun for_track_in_tracks ::
  "env \<Rightarrow> userInputs \<Rightarrow> track list \<Rightarrow> handle \<times> plex_track list \<times> track list \<Rightarrow> world
     \<Rightarrow> ((exn + handle \<times> plex_track list \<times> track list) \<times> world) option" where
  "for_track_in_tracks E U [] st w = Some (Inr st, w)"
| "for_track_in_tracks E U (t # ts) st w =
     (case track_body E U t st w of
        None \<Rightarrow> None
      | Some (Inl e, w1) \<Rightarrow> Some (Inl e, w1)
      | Some (Inr st1, w1) \<Rightarrow> for_track_in_tracks E U ts st1 w1)"

text \<open>
  \<open>_get_available_plex_tracks\<close> (lines 74-127) returns \<open>plex_tracks\<close> and
  \<open>missing_tracks\<close>; its local \<open>plex\<close> is not returned.
\<close>

definition get_available_plex_tracks ::
  "env \<Rightarrow> handle \<Rightarrow> track list \<Rightarrow> userInputs \<Rightarrow> world
     \<Rightarrow> ((exn + plex_track list \<times> track list) \<times> world) option" where
  "get_available_plex_tracks E plex tracks U w =
     (case for_track_in_tracks E U tracks (plex, [], []) w of
        None \<Rightarrow> None
      | Some (Inl e, w1) \<Rightarrow> Some (Inl e, w1)
      | Some (Inr (plex', plex_tracks, missing_tracks), w1) \<Rightarrow>
          Some (Inr (plex_tracks, missing_tracks), w1))"

section \<open>Updating the playlist\<close>

text \<open>\<open>_update_plex_playlist\<close> (lines 130-151).\<close>

definition update_plex_playlist ::
  "env \<Rightarrow> handle \<Rightarrow> plex_track list \<Rightarrow> playlist \<Rightarrow> bool \<Rightarrow> world
     \<Rightarrow> (exn + plex_playlist) \<times> world" where
  "update_plex_playlist E plex available_tracks pl append_arg w =
     (case server_playlist E plex (name pl) w of
        (Inl e, w1) \<Rightarrow> (Inl e, w1)
      | (Inr pp, w1) \<Rightarrow>
          (case (if \<not> append_arg
                 then (case playlist_items E pp w1 of
                         (Inl e, w2) \<Rightarrow> (Inl e, w2)
                       | (Inr its, w2) \<Rightarrow> removeItems E pp its w2)
                 else (Inr (), w1)) of
             (Inl e, w3) \<Rightarrow> (Inl e, w3)
           | (Inr u, w3) \<Rightarrow>
               (case addItems E pp available_tracks w3 of
                  (Inl e, w4) \<Rightarrow> (Inl e, w4)
                | (Inr u', w4) \<Rightarrow> (Inr pp, w4))))"

text \<open>Lines 169-180: update the playlist, or create it when \<open>NotFound\<close> is raised.\<close>

definition update_or_create ::
  "env \<Rightarrow> handle \<Rightarrow> playlist \<Rightarrow> plex_track list \<Rightarrow> userInputs \<Rightarrow> world
     \<Rightarrow> (exn + plex_playlist) \<times> world" where
  "update_or_create E plex pl available_tracks U w =
     (case update_plex_playlist E plex available_tracks pl (append_instead_of_sync U) w of
        (Inr pp, w1) \<Rightarrow> (Inr pp, logging_info ''Updated playlist %s'' [name pl] w1)
      | (Inl e, w1) \<Rightarrow>
          if e = NotFound
          then
            (case createPlaylist E plex (name pl) available_tracks w1 of
               (Inl e', w2) \<Rightarrow> (Inl e', w2)
             | (Inr u, w2) \<Rightarrow>
                 server_playlist E plex (name pl)
                   (logging_info ''Created playlist %s'' [name pl] w2))
          else (Inl e, w1))"

text \<open>Lines 182-196: description and poster; the bare \<open>except\<close> catches every failure.\<close>

definition set_description :: "env \<Rightarrow> plex_playlist \<Rightarrow> playlist \<Rightarrow> userInputs \<Rightarrow> world \<Rightarrow> world" where
  "set_description E pp pl U w =
     (if description pl \<noteq> [] \<and> add_playlist_description U
      then (case playlist_edit E pp (description pl) w of
              (Inr u, w1) \<Rightarrow> w1
            | (Inl e, w1) \<Rightarrow>
                logging_info ''Failed to update description for playlist %s'' [name pl] w1)
      else w)"

definition set_poster :: "env \<Rightarrow> plex_playlist \<Rightarrow> playlist \<Rightarrow> userInputs \<Rightarrow> world \<Rightarrow> world" where
  "set_poster E pp pl U w =
     (if poster pl \<noteq> [] \<and> add_playlist_poster U
      then (case uploadPoster E pp (poster pl) w of
              (Inr u, w1) \<Rightarrow> w1
            | (Inl e, w1) \<Rightarrow>
                logging_info ''Failed to update poster for playlist %s'' [name pl] w1)
      else w)"

text \<open>Lines 168-206: the branch on \<open>available_tracks\<close>.\<close>

definition apply_playlist ::
  "env \<Rightarrow> handle \<Rightarrow> playlist \<Rightarrow> plex_track list \<Rightarrow> userInputs \<Rightarrow> world
     \<Rightarrow> (exn + unit) \<times> world" where
  "apply_playlist E plex pl available_tracks U w =
     (if available_tracks \<noteq> []
      then
        (case update_or_create E plex pl available_tracks U w of
           (Inl e, w1) \<Rightarrow> (Inl e, w1)
         | (Inr pp, w1) \<Rightarrow>
             (Inr (),
              logging_info ''Updated playlist %s with summary and poster'' [name pl]
                (set_poster E pp pl U (set_description E pp pl U w1))))
      else
        (Inr (),
         logging_info
           ''No songs for playlist %s were found on plex, skipping the playlist creation''
           [name pl] w))"

text \<open>Lines 207-226: the missing-tracks file is written, or the one of a previous run deleted.\<close>

definition write_missing :: "env \<Rightarrow> playlist \<Rightarrow> track list \<Rightarrow> userInputs \<Rightarrow> world \<Rightarrow> world" where
  "write_missing E pl missing_tracks U w =
     (if missing_tracks \<noteq> [] \<and> write_missing_as_csv U
      then (case write_csv E missing_tracks (name pl) w of
              (Inr u, w1) \<Rightarrow> logging_info ''Missing tracks written to %s.csv'' [name pl] w1
            | (Inl e, w1) \<Rightarrow>
                logging_info
                  ''Failed to write missing tracks for %s, likely permission issue''
                  [name pl] w1)
      else w)"

definition delete_missing :: "env \<Rightarrow> playlist \<Rightarrow> track list \<Rightarrow> userInputs \<Rightarrow> world \<Rightarrow> world" where
  "delete_missing E pl missing_tracks U w =
     (if missing_tracks = [] \<and> write_missing_as_csv U
      then (case delete_csv E (name pl) w of
              (Inr u, w1) \<Rightarrow> logging_info ''Deleted old %s.csv'' [name pl] w1
            | (Inl e, w1) \<Rightarrow>
                logging_info ''Failed to delete %s.csv, likely permission issue'' [name pl] w1)
      else w)"

text \<open>\<open>update_or_create_plex_playlist\<close> (lines 154-226).\<close>

definition update_or_create_plex_playlist ::
  "env \<Rightarrow> handle \<Rightarrow> playlist \<Rightarrow> track list \<Rightarrow> userInputs \<Rightarrow> world
     \<Rightarrow> ((exn + unit) \<times> world) option" where
  "update_or_create_plex_playlist E plex pl tracks U w =
     (case get_available_plex_tracks E plex tracks U w of
        None \<Rightarrow> None
      | Some (Inl e, w1) \<Rightarrow> Some (Inl e, w1)
      | Some (Inr (available_tracks, missing_tracks), w1) \<Rightarrow>
          (case apply_playlist E plex pl available_tracks U w1 of
             (Inl e, w2) \<Rightarrow> Some (Inl e, w2)
           | (Inr u, w2) \<Rightarrow>
               Some (Inr (),
                     delete_missing E pl missing_tracks U
                       (write_missing E pl missing_tracks U w2))))"

section \<open>Reading the trace\<close>

text \<open>
  The searches of a trace with their arguments, the number of searches that failed for
  another reason than a bad request (each is logged), and the number of connection
  attempts.
\<close>

fun searches :: "event list \<Rightarrow> (handle \<times> string \<times> string \<times> nat) list" where
  "searches [] = []"
| "searches (Search h q m l # evs) = (h, q, m, l) # searches evs"
| "searches (ev # evs) = searches evs"

fun search_failures :: "event list \<Rightarrow> nat" where
  "search_failures [] = 0"
| "search_failures (Log f a # evs) =
     (if f = ''exception while searching for %s '' then Suc (search_failures evs)
      else search_failures evs)"
| "search_failures (ev # evs) = search_failures evs"

fun connects :: "event list \<Rightarrow> nat" where
  "connects [] = 0"
| "connects (NewServer u k n # evs) = Suc (connects evs)"
| "connects (ev # evs) = connects evs"

text \<open>
  The search that ended a call of \<open>saveSearch\<close>: it went through \<open>h\<close>, no search
  follows it in the trace, and \<open>r\<close> is what it gave.
\<close>

definition final_search ::
  "env \<Rightarrow> handle \<Rightarrow> string \<Rightarrow> string \<Rightarrow> nat \<Rightarrow> plex_track list option \<Rightarrow> event list \<Rightarrow> bool" where
  "final_search E h q m l r tr =
     (\<exists>tr0 rest. tr = tr0 @ Search h q m l # rest \<and> searches rest = [] \<and>
        (case search_reply E tr0 h q m l of
           Inr rs \<Rightarrow> r = Some rs
         | Inl e \<Rightarrow> e = BadRequest \<and> r = None))"

section \<open>A concrete setting\<close>

text \<open>
  Python's \<open>quick_ratio\<close> counts the characters of the first string that still have a
  partner in the second and divides twice that number by the sum of the lengths; two
  empty strings have ratio one.  \<open>ascii_lower\<close> is \<open>str.lower\<close> on ASCII letters.
\<close>

fun matches :: "string \<Rightarrow> string \<Rightarrow> nat" where
  "matches [] b = 0"
| "matches (x # a) b = (if x \<in> set b then Suc (matches a (remove1 x b)) else matches a b)"

definition difflib_quick_ratio :: "string \<Rightarrow> string \<Rightarrow> rat" where
  "difflib_quick_ratio a b =
     (if length a + length b = 0 then 1
      else of_nat (2 * matches a b) / of_nat (length a + length b))"

definition ascii_lower :: "string \<Rightarrow> string" where
  "ascii_lower s =
     map (\<lambda>c. case map_of (zip ''ABCDEFGHIJKLMNOPQRSTUVWXYZ'' ''abcdefghijklmnopqrstuvwxyz'') c of
                None \<Rightarrow> c
              | Some d \<Rightarrow> d) s"

definition ex_inputs :: userInputs where
  "ex_inputs =
     \<lparr>plex_url = ''http://plex:32400'', plex_token = ''secret'',
      write_missing_as_csv = True, append_instead_of_sync = False,
      add_playlist_poster = True, add_playlist_description = True\<rparr>"

definition ex_world :: world where
  "ex_world = \<lparr>trace = [], playlists = Map.empty, files = Map.empty\<rparr>"

definition abba :: plex_track where
  "abba = \<lparr>ratingKey = 7, artist_title = Inr ''ABBA'', album_title = Inr ''Arrival''\<rparr>"

text \<open>
  A server that answers every call: a search for \<open>Dancing Queen\<close> finds one track, any
  other search finds nothing, and a new connection gets the next free number.
\<close>

definition ex_calm :: env where
  "ex_calm =
     \<lparr>connect_reply = (\<lambda>tr. Inr (Suc (connects tr))),
      search_reply = (\<lambda>tr h q m l. Inr (if q = ''Dancing Queen'' then [abba] else [])),
      fault = (\<lambda>tr ev. None),
      quick_ratio = difflib_quick_ratio,
      lower = ascii_lower,
      iter_track = (\<lambda>s. [s]),
      track_annotations = [''title'', ''artist'', ''album'', ''url'']\<rparr>"

text \<open>
  The same server after a restart: the object \<open>0\<close> no longer reaches it (a search for
  \<open>%\<close> is a bad request all the same), and the first new connection times out.
\<close>

definition ex_flaky :: env where
  "ex_flaky =
     ex_calm
       \<lparr>connect_reply :=
          (\<lambda>tr. if connects tr = 0 then Inl (OtherException ''Timeout'') else Inr (connects tr)),
        search_reply :=
          (\<lambda>tr h q m l.
             if q = ''%'' then Inl BadRequest
             else if h = 0 then Inl (OtherException ''ConnectionError'')
             else search_reply ex_calm tr h q m l)\<rparr>"

text \<open>
  The threshold rule in the words of the specification: a candidate is accepted when its
  artist or its album is similar enough to the one of the descriptor.  A candidate is
  readable when both of its names can be read.
\<close>

definition accepts :: "env \<Rightarrow> track \<Rightarrow> plex_track \<Rightarrow> bool" where
  "accepts E t s =
     ((case artist_title s of
         Inr a \<Rightarrow> 9 / 10 \<le> quick_ratio E (lower E a) (lower E (artist t))
       | Inl e \<Rightarrow> False) \<or>
      (case album_title s of
         Inr b \<Rightarrow> 9 / 10 \<le> quick_ratio E (lower E b) (lower E (album t))
       | Inl e \<Rightarrow> False))"

definition readable :: "plex_track \<Rightarrow> bool" where
  "readable s = (isl (artist_title s) = False \<and> isl (album_title s) = False)"

text \<open>A descriptor and two more candidates.\<close>

definition ex_track :: track where
  "ex_track = \<lparr>title = ''Dancing Queen'', artist = ''Abba'', album = ''Gold'',
               url = ''https://example.org/t/1''\<rparr>"

definition arrival_cover :: plex_track where
  "arrival_cover =
     \<lparr>ratingKey = 8, artist_title = Inr ''Tribute Band'', album_title = Inr ''GOLD''\<rparr>"

definition unrelated :: plex_track where
  "unrelated = \<lparr>ratingKey = 9, artist_title = Inr ''Queen'', album_title = Inr ''Jazz''\<rparr>"

text \<open>Every name of the candidate that cannot be read fails with \<open>IndexError\<close>.\<close>

definition index_errors_only :: "plex_track \<Rightarrow> bool" where
  "index_errors_only s =
     ((case artist_title s of Inl e \<Rightarrow> e = IndexError | Inr a \<Rightarrow> True) \<and>
      (case album_title s of Inl e \<Rightarrow> e = IndexError | Inr b \<Rightarrow> True))"

text \<open>
  A candidate for which Plex mismatched the search, one whose artist and one whose album
  cannot be fetched because the connection dropped, and servers that return them.  The last server rejects
  every search string with a parenthesis as a bad request.
\<close>

definition mismatched :: plex_track where
  "mismatched =
     \<lparr>ratingKey = 10, artist_title = Inl IndexError, album_title = Inl IndexError\<rparr>"

definition unreachable :: plex_track where
  "unreachable =
     \<lparr>ratingKey = 11, artist_title = Inl (OtherException ''ConnectionError''),
      album_title = Inr ''Arrival''\<rparr>"

definition album_down :: plex_track where
  "album_down =
     \<lparr>ratingKey = 12, artist_title = Inr ''Tribute Band'',
      album_title = Inl (OtherException ''ConnectionError'')\<rparr>"

definition ex_mismatch :: env where
  "ex_mismatch = ex_calm\<lparr>search_reply := (\<lambda>tr h q m l. Inr [mismatched, abba])\<rparr>"

definition ex_stale :: env where
  "ex_stale = ex_calm\<lparr>search_reply := (\<lambda>tr h q m l. Inr [unreachable, abba])\<rparr>"

definition ex_strict :: env where
  "ex_strict =
     ex_calm\<lparr>search_reply :=
       (\<lambda>tr h q m l. if CHR ''('' \<in> set q then Inl BadRequest else Inr [abba])\<rparr>"

definition live_track :: track where
  "live_track = \<lparr>title = ''Dancing Queen (Live)'', artist = ''Abba'', album = ''Live'',
                  url = ''https://example.org/t/2''\<rparr>"

text \<open>
  A server that matches search strings literally, and a descriptor whose title starts
  with a parenthesis.
\<close>

definition ex_literal :: env where
  "ex_literal =
     ex_calm\<lparr>search_reply :=
       (\<lambda>tr h q m l.
          Inr (if q = ''Dancing Queen (Live)'' then [unrelated]
               else if q = ''Dancing Queen '' then [abba]
               else []))\<rparr>"

definition intro_track :: track where
  "intro_track = \<lparr>title = ''(Intro) Dancing Queen'', artist = ''Abba'', album = ''Live'',
                   url = ''https://example.org/t/3''\<rparr>"

text \<open>
  The partition in the words of the specification: given for every descriptor either
  the candidate accepted for it or nothing, the resolved tracks are the accepted
  candidates and the missing tracks are the descriptors without one.
\<close>

fun classify :: "track list \<Rightarrow> plex_track option list \<Rightarrow> plex_track list \<times> track list" where
  "classify (t # ts) (Some s # os) = (s # fst (classify ts os), snd (classify ts os))"
| "classify (t # ts) (None # os) = (fst (classify ts os), t # snd (classify ts os))"
| "classify ts os = ([], [])"

text \<open>
  The calls on playlists (lookups, reads and changes), the calls that change the items
  of a playlist, and the calls on the missing-tracks files.
\<close>

fun playlist_call :: "event \<Rightarrow> bool" where
  "playlist_call (GetPlaylist h nm) = True"
| "playlist_call (Items h nm) = True"
| "playlist_call (RemoveItems h nm its) = True"
| "playlist_call (AddItems h nm its) = True"
| "playlist_call (CreatePlaylist h nm its) = True"
| "playlist_call (Edit h nm summary) = True"
| "playlist_call (UploadPoster h nm u) = True"
| "playlist_call ev = False"

fun item_change :: "event \<Rightarrow> bool" where
  "item_change (RemoveItems h nm its) = True"
| "item_change (AddItems h nm its) = True"
| "item_change (CreatePlaylist h nm its) = True"
| "item_change ev = False"

fun file_call :: "event \<Rightarrow> bool" where
  "file_call (WriteCsv nm rows) = True"
| "file_call (DeleteCsv nm) = True"
| "file_call ev = False"

text \<open>
  Two worlds have the same stores when they agree on the playlists, on the files and on
  the calls made on either.
\<close>

definition same_stores :: "world \<Rightarrow> world \<Rightarrow> bool" where
  "same_stores w w' =
     (playlists w' = playlists w \<and> files w' = files w \<and>
      filter playlist_call (trace w') = filter playlist_call (trace w) \<and>
      filter file_call (trace w') = filter file_call (trace w))"

text \<open>
  A server that is down: no connection can be made and no search gets through.  And a
  server that accepts connections while every search fails.
\<close>

definition ex_down :: env where
  "ex_down =
     ex_calm
       \<lparr>connect_reply := (\<lambda>tr. Inl (OtherException ''ConnectionRefused'')),
        search_reply := (\<lambda>tr h q m l. Inl (OtherException ''ConnectionError''))\<rparr>"

definition ex_broken :: env where
  "ex_broken =
     ex_calm\<lparr>search_reply := (\<lambda>tr h q m l. Inl (OtherException ''ReadTimeout''))\<rparr>"

text \<open>A playlist descriptor.\<close>

definition ex_playlist :: playlist where
  "ex_playlist = \<lparr>name = ''ABBA Gold'', description = ''Greatest hits'',
                  poster = ''https://example.org/p/1.jpg''\<rparr>"

text \<open>A world in which the playlist exists already, with one item.\<close>

definition ex_world_gold :: world where
  "ex_world_gold = ex_world\<lparr>playlists := [''ABBA Gold'' \<mapsto> [unrelated]]\<rparr>"

text \<open>
  The rows of the missing-tracks file in the words of the specification: after the
  header, one row per track with its title, artist, album and url.
\<close>

definition csv_rows :: "env \<Rightarrow> track list \<Rightarrow> string list list" where
  "csv_rows E ts = track_annotations E # map (\<lambda>t. [title t, artist t, album t, url t]) ts"

text \<open>The world after a run that left a missing-tracks file for the playlist.\<close>

definition ex_world_record :: world where
  "ex_world_record =
     ex_world\<lparr>files := [''ABBA Gold'' \<mapsto> csv_rows ex_calm [live_track]]\<rparr>"

text \<open>The calls by which an existing playlist is looked up, read and changed.\<close>

fun updates_playlist :: "event \<Rightarrow> bool" where
  "updates_playlist (GetPlaylist h nm) = True"
| "updates_playlist (Items h nm) = True"
| "updates_playlist (RemoveItems h nm its) = True"
| "updates_playlist (AddItems h nm its) = True"
| "updates_playlist ev = False"

text \<open>The same user inputs with the append policy.\<close>

definition ex_inputs_append :: userInputs where
  "ex_inputs_append = ex_inputs\<lparr>append_instead_of_sync := True\<rparr>"

section \<open>State and trace of the primitive calls\<close>

lemmas ex_defs = ex_flaky_def ex_calm_def ex_world_def ex_inputs_def plex_search_def PlexServer_def
  logging_info_def time_sleep_def emit_def

lemma searches_append [simp]: "searches (xs @ ys) = searches xs @ searches ys"
  by (induction xs rule: searches.induct) simp_all

lemma search_failures_append [simp]:
  "search_failures (xs @ ys) = search_failures xs + search_failures ys"
  by (induction xs rule: search_failures.induct) simp_all

lemma connects_append [simp]: "connects (xs @ ys) = connects xs + connects ys"
  by (induction xs rule: connects.induct) simp_all

lemma trace_emit [simp]: "trace (emit ev w) = trace w @ [ev]"
  and playlists_emit [simp]: "playlists (emit ev w) = playlists w"
  and files_emit [simp]: "files (emit ev w) = files w"
  by (simp_all add: emit_def)

lemma trace_logging_info [simp]: "trace (logging_info f a w) = trace w @ [Log f a]"
  and playlists_logging_info [simp]: "playlists (logging_info f a w) = playlists w"
  and files_logging_info [simp]: "files (logging_info f a w) = files w"
  by (simp_all add: logging_info_def)

lemma trace_time_sleep [simp]: "trace (time_sleep n w) = trace w @ [Sleep n]"
  and playlists_time_sleep [simp]: "playlists (time_sleep n w) = playlists w"
  and files_time_sleep [simp]: "files (time_sleep n w) = files w"
  by (simp_all add: time_sleep_def)

lemma createPlexServer_returns:
  "createPlexServer E U w = Some y \<Longrightarrow>
     (\<exists>h. fst y = Inr h) \<and> playlists (snd y) = playlists w \<and> files (snd y) = files w \<and>
     (\<exists>evs. trace (snd y) = trace w @ evs \<and> searches evs = [] \<and> search_failures evs = 0
        \<and> 0 < connects evs)"
proof (induction rule: createPlexServer.raw_induct [rotated 1, consumes 1])
  case (1 createPlexServer E U w y)
  show ?case
  proof (cases "connect_reply E (trace w @ [Log ''Try to create a new plex server object'' []])")
    case (Inr h)
    with 1(2) show ?thesis by (auto simp: PlexServer_def)
  next
    case (Inl e)
    with 1(2) have "createPlexServer E U (time_sleep 5
               (logging_info ''Error while creating. waiting for 5sek and try again'' []
                 (emit (NewServer (plex_url U) (plex_token U) 90) (logging_info ''Try to create a new plex server object'' [] w)))) = Some y"
      by (simp add: PlexServer_def)
    from 1(1)[OF this] show ?thesis by auto
  qed
qed

lemma final_search_base:
  "searches rest = [] \<Longrightarrow>
   (case search_reply E tr0 h q m l of Inr rs \<Rightarrow> r = Some rs | Inl e \<Rightarrow> e = BadRequest \<and> r = None) \<Longrightarrow>
   final_search E h q m l r (tr0 @ Search h q m l # rest)"
  unfolding final_search_def by blast

lemma saveSearch_returns:
  "saveSearch E U h q m l w = Some y \<Longrightarrow>
     playlists (snd y) = playlists w \<and> files (snd y) = files w \<and>
     (\<exists>h' r evs hs. fst y = Inr (h', r) \<and> trace (snd y) = trace w @ evs \<and>
        searches evs = map (\<lambda>x. (x, q, m, l)) (h # hs) \<and> last (h # hs) = h' \<and>
        length hs = search_failures evs \<and> (hs = [] \<longrightarrow> connects evs = 0) \<and>
        final_search E h' q m l r (trace (snd y)))"
proof (induction rule: saveSearch.raw_induct [rotated 1, consumes 1])
  case (1 saveSearch E U h q m l w y)
  show ?case
  proof (cases "search_reply E (trace w) h q m l")
    case (Inr rs)
    with 1(2) have y: "y = (Inr (h, Some rs), emit (Search h q m l) w)"
      by (auto simp: plex_search_def)
    have "trace (snd y) = trace w @ [Search h q m l]"
      and "searches [Search h q m l] = map (\<lambda>x. (x, q, m, l)) (h # [])"
      and "last (h # []) = h" and "length ([] :: handle list) = search_failures [Search h q m l]"
      and "connects [Search h q m l] = 0"
      and "final_search E h q m l (Some rs) (trace (snd y))"
      and "fst y = Inr (h, Some rs)"
      and "playlists (snd y) = playlists w" and "files (snd y) = files w"
      unfolding y using Inr by (simp_all add: final_search_base)
    then show ?thesis by blast
  next
    case (Inl e)
    show ?thesis
    proof (cases "e = BadRequest")
      case True
      with Inl 1(2) have y: "y = (Inr (h, None),
          logging_info ''failed to search %s on plex'' [q] (emit (Search h q m l) w))"
        by (auto simp: plex_search_def)
      let ?evs = "[Search h q m l, Log ''failed to search %s on plex'' [q]]"
      have "trace (snd y) = trace w @ ?evs"
        and "searches ?evs = map (\<lambda>x. (x, q, m, l)) (h # [])"
        and "last (h # []) = h" and "length ([] :: handle list) = search_failures ?evs"
        and "connects ?evs = 0"
        and "final_search E h q m l None (trace (snd y))"
        and "fst y = Inr (h, None)"
        and "playlists (snd y) = playlists w" and "files (snd y) = files w"
        unfolding y using Inl True by (simp_all add: final_search_base)
      then show ?thesis by blast
    next
      case False
      let ?w1 = "logging_info ''exception while searching for %s '' [q] (emit (Search h q m l) w)"
      from False Inl 1(2) obtain r2 w2 where c0: "createPlexServer E U ?w1 = Some (r2, w2)"
        by (auto simp: plex_search_def split: option.splits)
      from createPlexServer_returns [OF c0] obtain h2 where r2: "r2 = Inr h2"
        by auto
      from c0 r2 have c: "createPlexServer E U ?w1 = Some (Inr h2, w2)"
        by simp
      from False Inl 1(2) c have s: "saveSearch E U h2 q m l w2 = Some y"
        by (simp add: plex_search_def)
      from createPlexServer_returns [OF c] obtain evs1 where
        c1: "playlists w2 = playlists w" "files w2 = files w"
          "trace w2 = trace ?w1 @ evs1" "searches evs1 = []" "search_failures evs1 = 0"
        by auto
      from 1(1) [OF s] obtain h' r evs2 hs2 where
        s1: "playlists (snd y) = playlists w2" "files (snd y) = files w2"
          "fst y = Inr (h', r)" "trace (snd y) = trace w2 @ evs2"
          "searches evs2 = map (\<lambda>x. (x, q, m, l)) (h2 # hs2)" "last (h2 # hs2) = h'"
          "length hs2 = search_failures evs2" "final_search E h' q m l r (trace (snd y))"
        by auto
      let ?evs = "[Search h q m l, Log ''exception while searching for %s '' [q]] @ evs1 @ evs2"
      have "trace (snd y) = trace w @ ?evs" using c1 s1 by simp
      moreover have "searches ?evs = map (\<lambda>x. (x, q, m, l)) (h # h2 # hs2)"
        using c1 s1 by simp
      moreover have "last (h # h2 # hs2) = h'" using s1 by simp
      moreover have "length (h2 # hs2) = search_failures ?evs" using c1 s1 by simp
      moreover have "h2 # hs2 = [] \<longrightarrow> connects ?evs = 0" by simp
      ultimately have "\<exists>h' r evs hs. fst y = Inr (h', r) \<and> trace (snd y) = trace w @ evs \<and>
        searches evs = map (\<lambda>x. (x, q, m, l)) (h # hs) \<and> last (h # hs) = h' \<and>
        length hs = search_failures evs \<and> (hs = [] \<longrightarrow> connects evs = 0) \<and>
        final_search E h' q m l r (trace (snd y))"
        using s1(3) s1(8) by blast
      moreover have "playlists (snd y) = playlists w" "files (snd y) = files w"
        using c1 s1 by simp_all
      ultimately show ?thesis by simp
    qed
  qed
qed

section \<open>Retrying by recursion\<close>

lemma createPlexServer_on_stack_returns:
  "createPlexServer_on_stack d E U w = (Inr h, w') \<Longrightarrow>
   createPlexServer E U w = Some (Inr h, w')"
proof (induction d arbitrary: w)
  case 0
  then show ?case by simp
next
  case (Suc d)
  show ?case
  proof (cases "connect_reply E (trace w @ [Log ''Try to create a new plex server object'' []])")
    case (Inr h0)
    with Suc.prems show ?thesis
      by (subst createPlexServer.simps) (simp add: PlexServer_def)
  next
    case (Inl e)
    with Suc.prems have "createPlexServer_on_stack d E U
        (time_sleep 5
           (logging_info ''Error while creating. waiting for 5sek and try again'' []
              (emit (NewServer (plex_url U) (plex_token U) 90)
                 (logging_info ''Try to create a new plex server object'' [] w)))) = (Inr h, w')"
      by (simp add: PlexServer_def)
    from Suc.IH [OF this] Inl show ?thesis
      by (subst createPlexServer.simps) (simp add: PlexServer_def)
  qed
qed

lemma createPlexServer_on_stack_raises:
  "createPlexServer_on_stack d E U w = (Inl e, w') \<Longrightarrow> e = OtherException ''RecursionError''"
proof (induction d arbitrary: w)
  case 0
  then show ?case by simp
next
  case (Suc d)
  then show ?case
    by (cases "connect_reply E (trace w @ [Log ''Try to create a new plex server object'' []])")
       (auto simp: PlexServer_def)
qed

lemma saveSearch_on_stack_returns:
  "saveSearch_on_stack d E U h q m l w = (Inr r, w') \<Longrightarrow>
   saveSearch E U h q m l w = Some (Inr r, w')"
proof (induction d arbitrary: h w)
  case 0
  then show ?case by simp
next
  case (Suc d)
  show ?case
  proof (cases "search_reply E (trace w) h q m l")
    case (Inr rs)
    with Suc.prems show ?thesis
      by (subst saveSearch.simps) (simp add: plex_search_def)
  next
    case (Inl e)
    show ?thesis
    proof (cases "e = BadRequest")
      case True
      with Inl Suc.prems show ?thesis
        by (subst saveSearch.simps) (simp add: plex_search_def)
    next
      case False
      let ?w1 = "logging_info ''exception while searching for %s '' [q] (emit (Search h q m l) w)"
      obtain x2 w2 where c: "createPlexServer_on_stack d E U ?w1 = (x2, w2)"
        by (cases "createPlexServer_on_stack d E U ?w1")
      with False Inl Suc.prems obtain h2 where x2: "x2 = Inr h2"
        and s: "saveSearch_on_stack d E U h2 q m l w2 = (Inr r, w')"
        by (cases x2) (simp_all add: plex_search_def)
      from createPlexServer_on_stack_returns c x2
      have c': "createPlexServer E U ?w1 = Some (Inr h2, w2)" by simp
      from Suc.IH [OF s] False Inl c' show ?thesis
        by (subst saveSearch.simps) (simp add: plex_search_def)
    qed
  qed
qed

lemma createPlexServer_on_stack_down:
  assumes "\<And>tr. isl (connect_reply E tr)"
  shows "fst (createPlexServer_on_stack d E U w) = Inl (OtherException ''RecursionError'')"
proof (induction d arbitrary: w)
  case 0
  then show ?case by simp
next
  case (Suc d)
  from assms [of "trace w @ [Log ''Try to create a new plex server object'' []]"]
  show ?case
    by (cases "connect_reply E (trace w @ [Log ''Try to create a new plex server object'' []])")
       (simp_all add: PlexServer_def Suc.IH)
qed

lemma saveSearch_on_stack_broken:
  assumes "\<And>tr h. isl (search_reply E tr h q m l) \<and> search_reply E tr h q m l \<noteq> Inl BadRequest"
  shows "fst (saveSearch_on_stack d E U h q m l w) = Inl (OtherException ''RecursionError'')"
proof (induction d arbitrary: h w)
  case 0
  then show ?case by simp
next
  case (Suc d)
  from assms [of "trace w" h] obtain e where
    e: "search_reply E (trace w) h q m l = Inl e" "e \<noteq> BadRequest"
    by (cases "search_reply E (trace w) h q m l") auto
  let ?w1 = "logging_info ''exception while searching for %s '' [q] (emit (Search h q m l) w)"
  obtain x2 w2 where c: "createPlexServer_on_stack d E U ?w1 = (x2, w2)"
    by (cases "createPlexServer_on_stack d E U ?w1")
  show ?case
  proof (cases x2)
    case (Inl e')
    with c createPlexServer_on_stack_raises have "e' = OtherException ''RecursionError''"
      by blast
    with e c Inl show ?thesis by (simp add: plex_search_def)
  next
    case (Inr h2)
    with e c Suc.IH [of h2 w2] show ?thesis by (simp add: plex_search_def)
  qed
qed

text \<open>
  Claim C8 does not hold for the code.  Against a server that stays down, every frame
  that the call stack still has room for is used up by a failed attempt, and the
  \<open>RecursionError\<close> of the call that no longer fits reaches the caller of
  \<open>createPlexServer\<close> and of \<open>saveSearch\<close>.  The same happens with a server that
  accepts every connection while the search keeps failing.  This holds for every
  number of frames, 1000 among them.
\<close>

theorem retry_by_recursion_raises:
  "fst (createPlexServer_on_stack d ex_down ex_inputs ex_world) =
     Inl (OtherException ''RecursionError'') \<and>
   fst (saveSearch_on_stack d ex_down ex_inputs 0 ''Dancing Queen'' ''track'' 5 ex_world) =
     Inl (OtherException ''RecursionError'') \<and>
   fst (saveSearch_on_stack d ex_broken ex_inputs 0 ''Dancing Queen'' ''track'' 5 ex_world) =
     Inl (OtherException ''RecursionError'') \<and>
   length (searches (trace (snd
     (saveSearch_on_stack 3 ex_broken ex_inputs 0 ''Dancing Queen'' ''track'' 5 ex_world)))) = 3"
proof (intro conjI)
  show "fst (createPlexServer_on_stack d ex_down ex_inputs ex_world) =
     Inl (OtherException ''RecursionError'')"
    by (rule createPlexServer_on_stack_down) (simp add: ex_down_def)
  show "fst (saveSearch_on_stack d ex_down ex_inputs 0 ''Dancing Queen'' ''track'' 5 ex_world) =
     Inl (OtherException ''RecursionError'')"
    by (rule saveSearch_on_stack_broken) (simp add: ex_down_def)
  show "fst (saveSearch_on_stack d ex_broken ex_inputs 0 ''Dancing Queen'' ''track'' 5 ex_world) =
     Inl (OtherException ''RecursionError'')"
    by (rule saveSearch_on_stack_broken) (simp add: ex_broken_def)
  show "length (searches (trace (snd
     (saveSearch_on_stack 3 ex_broken ex_inputs 0 ''Dancing Queen'' ''track'' 5 ex_world)))) = 3"
    by (simp add: numeral_3_eq_3 ex_broken_def ex_defs)
qed

section \<open>Choosing among the candidates\<close>

lemma for_s_in_search_readable:
  "list_all readable cs \<Longrightarrow> for_s_in_search E t cs w = (Inr (find (accepts E t) cs), w)"
proof (induction cs)
  case Nil
  then show ?case by simp
next
  case (Cons s cs)
  from Cons.prems obtain a b where ab: "artist_title s = Inr a" "album_title s = Inr b"
    by (cases "artist_title s"; cases "album_title s") (auto simp: readable_def)
  from Cons show ?case
    by (simp add: ab accepts_def)
qed

text \<open>
  Claim C2.  A candidate whose artist is similar enough (at least 0.9, both names in lower
  case) is accepted whatever its album is, and the loop stops there.  When the artist is
  not similar enough, the candidate is accepted if and only if its album is similar
  enough, and otherwise the loop goes on with the next candidate.  Over candidates whose
  names can all be read, the loop returns the first one, in the order of the list, that
  the rule accepts.
\<close>

theorem candidate_threshold:
  "(artist_title s = Inr a \<and> 9 / 10 \<le> quick_ratio E (lower E a) (lower E (artist t)) \<longrightarrow>
      for_s_in_search E t (s # ss) w = (Inr (Some s), w)) \<and>
   (artist_title s = Inr a \<and> \<not> 9 / 10 \<le> quick_ratio E (lower E a) (lower E (artist t)) \<and>
    album_title s = Inr b \<longrightarrow>
      for_s_in_search E t (s # ss) w =
        (if 9 / 10 \<le> quick_ratio E (lower E b) (lower E (album t))
         then (Inr (Some s), w)
         else for_s_in_search E t ss w)) \<and>
   (list_all readable cs \<longrightarrow>
      for_s_in_search E t cs w = (Inr (find (accepts E t) cs), w))"
  using for_s_in_search_readable [of cs E t w] by simp

theorem candidate_threshold_witness:
  "artist_title abba = Inr ''ABBA'' \<and>
   9 / 10 \<le> quick_ratio ex_calm (lower ex_calm ''ABBA'') (lower ex_calm (artist ex_track)) \<and>
   for_s_in_search ex_calm ex_track [abba, unrelated] ex_world = (Inr (Some abba), ex_world) \<and>
   artist_title arrival_cover = Inr ''Tribute Band'' \<and>
   \<not> 9 / 10 \<le> quick_ratio ex_calm (lower ex_calm ''Tribute Band'') (lower ex_calm (artist ex_track)) \<and>
   album_title arrival_cover = Inr ''GOLD'' \<and>
   9 / 10 \<le> quick_ratio ex_calm (lower ex_calm ''GOLD'') (lower ex_calm (album ex_track)) \<and>
   for_s_in_search ex_calm ex_track [arrival_cover, abba] ex_world =
     (Inr (Some arrival_cover), ex_world) \<and>
   list_all readable [unrelated, arrival_cover, abba] \<and>
   for_s_in_search ex_calm ex_track [unrelated, arrival_cover, abba] ex_world =
     (Inr (Some arrival_cover), ex_world)"
proof -
  have 1: "artist_title abba = Inr ''ABBA'' \<and>
    9 / 10 \<le> quick_ratio ex_calm (lower ex_calm ''ABBA'') (lower ex_calm (artist ex_track))"
    by (simp add: abba_def ex_calm_def ex_track_def ascii_lower_def difflib_quick_ratio_def)
  have 2: "artist_title arrival_cover = Inr ''Tribute Band'' \<and>
    \<not> 9 / 10 \<le> quick_ratio ex_calm (lower ex_calm ''Tribute Band'') (lower ex_calm (artist ex_track)) \<and>
    album_title arrival_cover = Inr ''GOLD''"
    by (simp add: arrival_cover_def ex_calm_def ex_track_def ascii_lower_def difflib_quick_ratio_def)
  have 3: "9 / 10 \<le> quick_ratio ex_calm (lower ex_calm ''GOLD'') (lower ex_calm (album ex_track))"
    by (simp add: ex_calm_def ex_track_def ascii_lower_def difflib_quick_ratio_def)
  have 4: "list_all readable [unrelated, arrival_cover, abba]"
    by (simp add: readable_def unrelated_def arrival_cover_def abba_def)
  have 5: "find (accepts ex_calm ex_track) [unrelated, arrival_cover, abba] = Some arrival_cover"
    by (simp add: accepts_def unrelated_def arrival_cover_def abba_def ex_calm_def ex_track_def
        ascii_lower_def difflib_quick_ratio_def)
  note t1 = candidate_threshold [where E = ex_calm and t = ex_track and s = abba
      and a = "''ABBA''" and ss = "[unrelated]" and w = ex_world,
      THEN conjunct1, rule_format, OF 1]
  note t2 = candidate_threshold [where E = ex_calm and t = ex_track and s = arrival_cover
      and a = "''Tribute Band''" and b = "''GOLD''" and ss = "[abba]" and w = ex_world,
      THEN conjunct2, THEN conjunct1, rule_format, OF 2]
  note t3 = candidate_threshold [where E = ex_calm and t = ex_track
      and cs = "[unrelated, arrival_cover, abba]" and w = ex_world,
      THEN conjunct2, THEN conjunct2, rule_format, OF 4]
  from 1 2 3 4 5 t1 t2 t3 show ?thesis by simp
qed

section \<open>Titles, first events and the world of the candidate loop\<close>

lemma str_split_not_Nil [simp]: "str_split c s \<noteq> []"
  by (induction s) (auto split: list.splits)

lemma str_split_length: "Suc 0 < length (str_split c s) \<longleftrightarrow> c \<in> set s"
  by (induction s) (auto split: list.splits)

lemma str_split_first: "subscript0 (str_split c s) = Inr (takeWhile (\<lambda>x. x \<noteq> c) s)"
  by (induction s) (auto simp: subscript0_def split: list.splits)

lemma saveSearch_first_event:
  assumes "saveSearch E U h q m l w = Some y"
  shows "\<exists>evs. trace (snd y) = trace w @ Search h q m l # evs"
proof (cases "search_reply E (trace w) h q m l")
  case (Inr rs)
  with assms show ?thesis
    by (subst (asm) saveSearch.simps) (auto simp: plex_search_def)
next
  case (Inl e)
  show ?thesis
  proof (cases "e = BadRequest")
    case True
    with Inl assms show ?thesis
      by (subst (asm) saveSearch.simps) (auto simp: plex_search_def)
  next
    case False
    let ?w1 = "logging_info ''exception while searching for %s '' [q] (emit (Search h q m l) w)"
    from False Inl assms obtain r2 w2 where c0: "createPlexServer E U ?w1 = Some (r2, w2)"
      by (subst (asm) saveSearch.simps) (auto simp: plex_search_def split: option.splits)
    from createPlexServer_returns [OF c0] obtain h2 evs1 where
      r2: "r2 = Inr h2" and t2: "trace w2 = trace ?w1 @ evs1"
      by auto
    from False Inl assms c0 r2 have s: "saveSearch E U h2 q m l w2 = Some y"
      by (subst (asm) saveSearch.simps) (simp add: plex_search_def)
    from saveSearch_returns [OF s] obtain evs2 where "trace (snd y) = trace w2 @ evs2"
      by auto
    with t2 show ?thesis by simp
  qed
qed

lemma for_s_in_search_world:
  "\<exists>evs. trace (snd (for_s_in_search E t cs w)) = trace w @ evs \<and> searches evs = [] \<and>
     playlists (snd (for_s_in_search E t cs w)) = playlists w \<and>
     files (snd (for_s_in_search E t cs w)) = files w"
proof (induction cs arbitrary: w)
  case Nil
  then show ?case by simp
next
  case (Cons s cs)
  let ?w1 = "logging_info
     ''Looks like plex mismatched the search for %s, retrying with next result'' [title t] w"
  from Cons [of w] obtain evs0 where
    0: "trace (snd (for_s_in_search E t cs w)) = trace w @ evs0" "searches evs0 = []"
       "playlists (snd (for_s_in_search E t cs w)) = playlists w"
       "files (snd (for_s_in_search E t cs w)) = files w"
    by blast
  from Cons [of ?w1] obtain evs1 where
    1: "trace (snd (for_s_in_search E t cs ?w1)) = trace ?w1 @ evs1" "searches evs1 = []"
       "playlists (snd (for_s_in_search E t cs ?w1)) = playlists w"
       "files (snd (for_s_in_search E t cs ?w1)) = files w"
    by auto
  have 2: "trace (snd (for_s_in_search E t cs ?w1)) =
      trace w @ (Log ''Looks like plex mismatched the search for %s, retrying with next result''
        [title t] # evs1)"
    "searches (Log ''Looks like plex mismatched the search for %s, retrying with next result''
        [title t] # evs1) = []"
    using 1 by simp_all
  have 3: "trace w = trace w @ []" "searches [] = []" by simp_all
  have "for_s_in_search E t (s # cs) w = for_s_in_search E t cs w \<or>
      for_s_in_search E t (s # cs) w = for_s_in_search E t cs ?w1 \<or>
      snd (for_s_in_search E t (s # cs) w) = w"
    by (simp split: sum.splits)
  then consider (a) "for_s_in_search E t (s # cs) w = for_s_in_search E t cs w"
    | (b) "for_s_in_search E t (s # cs) w = for_s_in_search E t cs ?w1"
    | (c) "snd (for_s_in_search E t (s # cs) w) = w"
    by blast
  then show ?case
  proof cases
    case a
    with 0 show ?thesis by metis
  next
    case b
    with 1 2 show ?thesis by metis
  next
    case c
    with 3 show ?thesis by metis
  qed
qed

lemma for_s_in_search_index_errors:
  "list_all index_errors_only cs \<Longrightarrow> \<exists>r w'. for_s_in_search E t cs w = (Inr r, w')"
proof (induction cs arbitrary: w)
  case Nil
  then show ?case by simp
next
  case (Cons s cs)
  then show ?case
    by (cases "artist_title s"; cases "album_title s") (auto simp: index_errors_only_def)
qed

section \<open>Candidates whose names cannot be read\<close>

text \<open>
  Claim C7, as the code has it.  When reading the artist or the album of a candidate
  raises \<open>IndexError\<close>, the candidate is skipped with a log line and the loop goes on
  with the next candidate; when every failure among the candidates is an
  \<open>IndexError\<close>, the loop ends without an exception.  Any other exception raised
  while the artist is read, or while the album is read after an artist that is not
  similar enough, leaves the loop at once with that exception.
\<close>

theorem index_error_skips_candidate:
  "(artist_title s = Inl IndexError \<longrightarrow>
      for_s_in_search E t (s # ss) w =
        for_s_in_search E t ss
          (logging_info
             ''Looks like plex mismatched the search for %s, retrying with next result''
             [title t] w)) \<and>
   (artist_title s = Inr a \<and> \<not> 9 / 10 \<le> quick_ratio E (lower E a) (lower E (artist t)) \<and>
    album_title s = Inl IndexError \<longrightarrow>
      for_s_in_search E t (s # ss) w =
        for_s_in_search E t ss
          (logging_info
             ''Looks like plex mismatched the search for %s, retrying with next result''
             [title t] w)) \<and>
   (list_all index_errors_only cs \<longrightarrow>
      (\<exists>r w'. for_s_in_search E t cs w = (Inr r, w'))) \<and>
   (artist_title s = Inl e \<and> e \<noteq> IndexError \<longrightarrow>
      for_s_in_search E t (s # ss) w = (Inl e, w)) \<and>
   (artist_title s = Inr a \<and> \<not> 9 / 10 \<le> quick_ratio E (lower E a) (lower E (artist t)) \<and>
    album_title s = Inl e \<and> e \<noteq> IndexError \<longrightarrow>
      for_s_in_search E t (s # ss) w = (Inl e, w))"
  using for_s_in_search_index_errors [of cs E t w] by simp

theorem index_error_skips_candidate_witness:
  "artist_title mismatched = Inl IndexError \<and>
   list_all index_errors_only [mismatched, abba] \<and>
   for_s_in_search ex_calm ex_track [mismatched, abba] ex_world =
     (Inr (Some abba),
      ex_world\<lparr>trace :=
        [Log ''Looks like plex mismatched the search for %s, retrying with next result''
           [''Dancing Queen'']]\<rparr>) \<and>
   artist_title unreachable = Inl (OtherException ''ConnectionError'') \<and>
   for_s_in_search ex_calm ex_track [unreachable, abba] ex_world =
     (Inl (OtherException ''ConnectionError''), ex_world) \<and>
   artist_title album_down = Inr ''Tribute Band'' \<and>
   \<not> 9 / 10 \<le> quick_ratio ex_calm (lower ex_calm ''Tribute Band'')
                (lower ex_calm (artist ex_track)) \<and>
   album_title album_down = Inl (OtherException ''ConnectionError'') \<and>
   for_s_in_search ex_calm ex_track [album_down, abba] ex_world =
     (Inl (OtherException ''ConnectionError''), ex_world)"
proof -
  have 1: "artist_title mismatched = Inl IndexError"
    by (simp add: mismatched_def)
  have 2: "list_all index_errors_only [mismatched, abba]"
    by (simp add: index_errors_only_def mismatched_def abba_def)
  have 3: "artist_title unreachable = Inl (OtherException ''ConnectionError'') \<and>
      OtherException ''ConnectionError'' \<noteq> IndexError"
    by (simp add: unreachable_def)
  note t1 = index_error_skips_candidate [where s = mismatched and E = ex_calm and t = ex_track
      and ss = "[abba]" and w = ex_world, THEN conjunct1, rule_format, OF 1]
  note t3 = index_error_skips_candidate [where E = ex_calm and t = ex_track
      and cs = "[mismatched, abba]" and w = ex_world,
      THEN conjunct2, THEN conjunct2, THEN conjunct1, rule_format, OF 2]
  note t4 = index_error_skips_candidate [where s = unreachable and E = ex_calm and t = ex_track
      and ss = "[abba]" and w = ex_world and e = "OtherException ''ConnectionError''",
      THEN conjunct2, THEN conjunct2, THEN conjunct2, THEN conjunct1, rule_format, OF 3]
  have 6: "artist_title album_down = Inr ''Tribute Band'' \<and>
      \<not> 9 / 10 \<le> quick_ratio ex_calm (lower ex_calm ''Tribute Band'')
                   (lower ex_calm (artist ex_track)) \<and>
      album_title album_down = Inl (OtherException ''ConnectionError'') \<and>
      OtherException ''ConnectionError'' \<noteq> IndexError"
    by (simp add: album_down_def ex_calm_def ex_track_def ascii_lower_def
        difflib_quick_ratio_def)
  note t5 = index_error_skips_candidate [where s = album_down and E = ex_calm
      and t = ex_track and ss = "[abba]" and w = ex_world and a = "''Tribute Band''"
      and e = "OtherException ''ConnectionError''",
      THEN conjunct2, THEN conjunct2, THEN conjunct2, THEN conjunct2, rule_format, OF 6]
  have 5: "for_s_in_search ex_calm ex_track [abba]
      (logging_info
         ''Looks like plex mismatched the search for %s, retrying with next result''
         [title ex_track] ex_world) =
     (Inr (Some abba),
      ex_world\<lparr>trace :=
        [Log ''Looks like plex mismatched the search for %s, retrying with next result''
           [''Dancing Queen'']]\<rparr>)"
    by (simp add: abba_def ex_track_def ex_defs ascii_lower_def difflib_quick_ratio_def)
  from 1 2 3 t1 t3 t4 5 6 t5 show ?thesis by simp
qed

text \<open>
  The claim as stated fails: the first candidate cannot be reached, the exception is not
  an \<open>IndexError\<close>, and the resolution of the track (and with it the whole pass) ends
  with that exception although the next candidate matches.
\<close>

theorem any_metadata_failure_counterexample:
  "fst (for_s_in_search ex_stale ex_track [unreachable, abba] ex_world) =
     Inl (OtherException ''ConnectionError'') \<and>
   fst (for_s_in_search ex_stale ex_track [album_down, abba] ex_world) =
     Inl (OtherException ''ConnectionError'') \<and>
   map_option fst (get_available_plex_tracks ex_stale 0 [ex_track] ex_inputs ex_world) =
     Some (Inl (OtherException ''ConnectionError''))"
  by (simp add: get_available_plex_tracks_def track_body_def retry_search_def
      saveSearch.simps ex_stale_def unreachable_def album_down_def ex_track_def ex_defs
      ascii_lower_def difflib_quick_ratio_def)

section \<open>The relaxed query\<close>

lemma retry_search_None: "retry_search E U t h None w = Some (Inr (h, None), w)"
  by (simp add: retry_search_def)

lemma retry_search_skip:
  "cs \<noteq> [] \<Longrightarrow> CHR ''('' \<notin> set (title t) \<Longrightarrow>
   retry_search E U t h (Some cs) w = Some (Inr (h, Some cs), w)"
  by (simp add: retry_search_def str_split_length)

lemma retry_search_due:
  "cs = [] \<or> CHR ''('' \<in> set (title t) \<Longrightarrow>
   retry_search E U t h (Some cs) w =
     (case saveSearch E U h (takeWhile (\<lambda>c. c \<noteq> CHR ''('') (title t)) ''track'' 5
             (logging_info ''retrying search for %s'' [title t] w) of
        None \<Rightarrow> None
      | Some (Inl e, w2) \<Rightarrow> Some (Inl e, w2)
      | Some (Inr (h', None), w2) \<Rightarrow> Some (Inr (h', Some cs), w2)
      | Some (Inr (h', Some ns), w2) \<Rightarrow> Some (Inr (h', Some (cs @ ns)), w2))"
  by (auto simp: retry_search_def str_split_length str_split_first
      split: option.splits sum.splits prod.splits)

lemma retry_search_returns:
  assumes "retry_search E U t h r w = Some (res, w')"
  shows "playlists w' = playlists w \<and> files w' = files w \<and>
    (\<exists>evs. trace w' = trace w @ evs \<and>
       (if r \<noteq> None \<and> (r = Some [] \<or> CHR ''('' \<in> set (title t))
        then \<exists>hs evs'. evs = Log ''retrying search for %s'' [title t] #
                 Search h (takeWhile (\<lambda>c. c \<noteq> CHR ''('') (title t)) ''track'' 5 # evs' \<and>
               searches evs =
                 map (\<lambda>x. (x, takeWhile (\<lambda>c. c \<noteq> CHR ''('') (title t), ''track'', 5)) (h # hs)
        else evs = []))"
proof (cases r)
  case None
  with assms show ?thesis by (simp add: retry_search_None)
next
  case (Some cs)
  show ?thesis
  proof (cases "cs = [] \<or> CHR ''('' \<in> set (title t)")
    case False
    with Some assms show ?thesis by (simp add: retry_search_skip)
  next
    case True
    let ?q = "takeWhile (\<lambda>c. c \<noteq> CHR ''('') (title t)"
    let ?w1 = "logging_info ''retrying search for %s'' [title t] w"
    from assms Some True obtain y where
      y: "saveSearch E U h ?q ''track'' 5 ?w1 = Some y" and w': "snd y = w'"
      by (auto simp: retry_search_due split: option.splits sum.splits prod.splits)
    from saveSearch_returns [OF y] w' obtain evs hs where
      1: "playlists w' = playlists w" "files w' = files w" "trace w' = trace ?w1 @ evs"
         "searches evs = map (\<lambda>x. (x, ?q, ''track'', 5)) (h # hs)"
      by auto
    from saveSearch_first_event [OF y] w' obtain evs' where
      2: "trace w' = trace ?w1 @ Search h ?q ''track'' 5 # evs'"
      by auto
    from 1 2 have 3: "evs = Search h ?q ''track'' 5 # evs'" by simp
    have "trace w' = trace w @ (Log ''retrying search for %s'' [title t] # evs)"
      using 1 by simp
    moreover have "Log ''retrying search for %s'' [title t] # evs =
        Log ''retrying search for %s'' [title t] # Search h ?q ''track'' 5 # evs'"
      using 3 by simp
    moreover have "searches (Log ''retrying search for %s'' [title t] # evs) =
        map (\<lambda>x. (x, ?q, ''track'', 5)) (h # hs)"
      using 1 by simp
    ultimately have "\<exists>evs. trace w' = trace w @ evs \<and>
       (\<exists>hs evs'. evs = Log ''retrying search for %s'' [title t] # Search h ?q ''track'' 5 # evs' \<and>
               searches evs = map (\<lambda>x. (x, ?q, ''track'', 5)) (h # hs))"
      by blast
    with 1 Some True show ?thesis by simp
  qed
qed

lemma track_body_after_first_query:
  assumes b: "track_body E U t (plex, pts, mts) w = Some (res, w')"
    and f: "saveSearch E U plex (title t) ''track'' 5 w = Some (Inr (h1, r1), w1)"
  shows "\<exists>evs. trace w' = trace w1 @ evs \<and>
       (if r1 \<noteq> None \<and> (r1 = Some [] \<or> CHR ''('' \<in> set (title t))
        then \<exists>hs evs'. evs = Log ''retrying search for %s'' [title t] #
                 Search h1 (takeWhile (\<lambda>c. c \<noteq> CHR ''('') (title t)) ''track'' 5 # evs' \<and>
               searches evs =
                 map (\<lambda>x. (x, takeWhile (\<lambda>c. c \<noteq> CHR ''('') (title t), ''track'', 5)) (h1 # hs)
        else searches evs = [])"
proof -
  from b f obtain res2 w2 where r: "retry_search E U t h1 r1 w1 = Some (res2, w2)"
    by (auto simp: track_body_def split: option.splits)
  from retry_search_returns [OF r] obtain evs where
    1: "trace w2 = trace w1 @ evs"
       "if r1 \<noteq> None \<and> (r1 = Some [] \<or> CHR ''('' \<in> set (title t))
        then \<exists>hs evs'. evs = Log ''retrying search for %s'' [title t] #
                 Search h1 (takeWhile (\<lambda>c. c \<noteq> CHR ''('') (title t)) ''track'' 5 # evs' \<and>
               searches evs =
                 map (\<lambda>x. (x, takeWhile (\<lambda>c. c \<noteq> CHR ''('') (title t), ''track'', 5)) (h1 # hs)
        else evs = []"
    by blast
  have "\<exists>evs3. trace w' = trace w2 @ evs3 \<and> searches evs3 = []"
  proof (cases res2)
    case (Inl e)
    with b f r have "w' = w2" by (simp add: track_body_def)
    then show ?thesis by simp
  next
    case (Inr hr)
    obtain h2 r2 where hr: "hr = (h2, r2)" by (cases hr)
    let ?cs = "case r2 of None \<Rightarrow> [] | Some cs \<Rightarrow> cs"
    from b f r Inr hr have "w' = snd (for_s_in_search E t ?cs w2)"
      by (auto simp: track_body_def split: prod.splits sum.splits option.splits)
    with for_s_in_search_world [of E t ?cs w2] show ?thesis by auto
  qed
  then obtain evs3 where 3: "trace w' = trace w2 @ evs3" "searches evs3 = []"
    by blast
  show ?thesis
  proof (cases "r1 \<noteq> None \<and> (r1 = Some [] \<or> CHR ''('' \<in> set (title t))")
    case True
    with 1 obtain hs evs' where
      4: "evs = Log ''retrying search for %s'' [title t] #
                 Search h1 (takeWhile (\<lambda>c. c \<noteq> CHR ''('') (title t)) ''track'' 5 # evs'"
         "searches evs =
            map (\<lambda>x. (x, takeWhile (\<lambda>c. c \<noteq> CHR ''('') (title t), ''track'', 5)) (h1 # hs)"
      by auto
    have "trace w' = trace w1 @ (evs @ evs3)" using 1 3 by simp
    moreover have "evs @ evs3 = Log ''retrying search for %s'' [title t] #
                 Search h1 (takeWhile (\<lambda>c. c \<noteq> CHR ''('') (title t)) ''track'' 5 # (evs' @ evs3)"
      using 4 by simp
    moreover have "searches (evs @ evs3) =
            map (\<lambda>x. (x, takeWhile (\<lambda>c. c \<noteq> CHR ''('') (title t), ''track'', 5)) (h1 # hs)"
      using 4 3 by simp
    ultimately have "\<exists>evs. trace w' = trace w1 @ evs \<and>
       (\<exists>hs evs'. evs = Log ''retrying search for %s'' [title t] #
                 Search h1 (takeWhile (\<lambda>c. c \<noteq> CHR ''('') (title t)) ''track'' 5 # evs' \<and>
               searches evs =
                 map (\<lambda>x. (x, takeWhile (\<lambda>c. c \<noteq> CHR ''('') (title t), ''track'', 5)) (h1 # hs))"
      by blast
    with True show ?thesis by simp
  next
    case False
    with 1 have "evs = []" by auto
    with 1 3 have "trace w' = trace w1 @ evs3" by simp
    with 3 False show ?thesis by auto
  qed
qed

text \<open>
  Claim C3, as the code has it.  After the first query of a track, the relaxed query is
  issued exactly when the first query did not fail permanently and either returned no
  candidate or the title contains a parenthesis.  Its search string is the title up to the
  first parenthesis, its media type and limit are those of the first query, it goes
  through the handle the first query returned, and unless it fails permanently its
  results are put after those of the first query.  After a first query that failed
  permanently, and after one that returned candidates for a title without parenthesis,
  the track is resolved without any further search.
\<close>

theorem relaxed_query:
  "retry_search E U t h None w = Some (Inr (h, None), w) \<and>
   (cs \<noteq> [] \<and> CHR ''('' \<notin> set (title t) \<longrightarrow>
      retry_search E U t h (Some cs) w = Some (Inr (h, Some cs), w)) \<and>
   (cs = [] \<or> CHR ''('' \<in> set (title t) \<longrightarrow>
      retry_search E U t h (Some cs) w =
        (case saveSearch E U h (takeWhile (\<lambda>c. c \<noteq> CHR ''('') (title t)) ''track'' 5
                (logging_info ''retrying search for %s'' [title t] w) of
           None \<Rightarrow> None
         | Some (Inl e, w2) \<Rightarrow> Some (Inl e, w2)
         | Some (Inr (h', None), w2) \<Rightarrow> Some (Inr (h', Some cs), w2)
         | Some (Inr (h', Some ns), w2) \<Rightarrow> Some (Inr (h', Some (cs @ ns)), w2))) \<and>
   (\<forall>res w' h1 r1 w1.
      track_body E U t (plex, pts, mts) w = Some (res, w') \<and>
      saveSearch E U plex (title t) ''track'' 5 w = Some (Inr (h1, r1), w1) \<longrightarrow>
      (\<exists>evs. trace w' = trace w1 @ evs \<and>
         (if r1 \<noteq> None \<and> (r1 = Some [] \<or> CHR ''('' \<in> set (title t))
          then \<exists>hs evs'.
                 evs = Log ''retrying search for %s'' [title t] #
                   Search h1 (takeWhile (\<lambda>c. c \<noteq> CHR ''('') (title t)) ''track'' 5 # evs' \<and>
                 searches evs =
                   map (\<lambda>x. (x, takeWhile (\<lambda>c. c \<noteq> CHR ''('') (title t), ''track'', 5))
                     (h1 # hs)
          else searches evs = [])))"
proof (intro conjI allI impI)
  show "retry_search E U t h None w = Some (Inr (h, None), w)"
    by (rule retry_search_None)
next
  assume "cs \<noteq> [] \<and> CHR ''('' \<notin> set (title t)"
  then show "retry_search E U t h (Some cs) w = Some (Inr (h, Some cs), w)"
    by (simp add: retry_search_skip)
next
  assume "cs = [] \<or> CHR ''('' \<in> set (title t)"
  then show "retry_search E U t h (Some cs) w =
        (case saveSearch E U h (takeWhile (\<lambda>c. c \<noteq> CHR ''('') (title t)) ''track'' 5
                (logging_info ''retrying search for %s'' [title t] w) of
           None \<Rightarrow> None
         | Some (Inl e, w2) \<Rightarrow> Some (Inl e, w2)
         | Some (Inr (h', None), w2) \<Rightarrow> Some (Inr (h', Some cs), w2)
         | Some (Inr (h', Some ns), w2) \<Rightarrow> Some (Inr (h', Some (cs @ ns)), w2))"
    by (rule retry_search_due)
next
  fix res w' h1 r1 w1
  assume "track_body E U t (plex, pts, mts) w = Some (res, w') \<and>
      saveSearch E U plex (title t) ''track'' 5 w = Some (Inr (h1, r1), w1)"
  then show "\<exists>evs. trace w' = trace w1 @ evs \<and>
         (if r1 \<noteq> None \<and> (r1 = Some [] \<or> CHR ''('' \<in> set (title t))
          then \<exists>hs evs'.
                 evs = Log ''retrying search for %s'' [title t] #
                   Search h1 (takeWhile (\<lambda>c. c \<noteq> CHR ''('') (title t)) ''track'' 5 # evs' \<and>
                 searches evs =
                   map (\<lambda>x. (x, takeWhile (\<lambda>c. c \<noteq> CHR ''('') (title t), ''track'', 5))
                     (h1 # hs)
          else searches evs = [])"
    using track_body_after_first_query [of E U t plex pts mts w res w' h1 r1 w1] by blast
qed

theorem relaxed_query_witness:
  "retry_search ex_calm ex_inputs ex_track 0 (Some [abba]) ex_world =
     Some (Inr (0, Some [abba]), ex_world) \<and>
   CHR ''('' \<in> set (title live_track) \<and>
   retry_search ex_literal ex_inputs live_track 0 (Some [unrelated]) ex_world =
     Some (Inr (0, Some [unrelated, abba]),
           ex_world\<lparr>trace :=
             [Log ''retrying search for %s'' [''Dancing Queen (Live)''],
              Search 0 ''Dancing Queen '' ''track'' 5]\<rparr>) \<and>
   saveSearch ex_literal ex_inputs 0 (title live_track) ''track'' 5 ex_world =
     Some (Inr (0, Some [unrelated]),
           ex_world\<lparr>trace := [Search 0 ''Dancing Queen (Live)'' ''track'' 5]\<rparr>) \<and>
   track_body ex_literal ex_inputs live_track (0, [], []) ex_world =
     Some (Inr (0, [abba], []),
           ex_world\<lparr>trace :=
             [Search 0 ''Dancing Queen (Live)'' ''track'' 5,
              Log ''retrying search for %s'' [''Dancing Queen (Live)''],
              Search 0 ''Dancing Queen '' ''track'' 5]\<rparr>) \<and>
   (\<exists>evs hs evs'.
      [Search 0 ''Dancing Queen (Live)'' ''track'' 5,
       Log ''retrying search for %s'' [''Dancing Queen (Live)''],
       Search 0 ''Dancing Queen '' ''track'' 5] =
        [Search 0 ''Dancing Queen (Live)'' ''track'' 5] @ evs \<and>
      evs = Log ''retrying search for %s'' [''Dancing Queen (Live)''] #
              Search 0 ''Dancing Queen '' ''track'' 5 # evs' \<and>
      searches evs = map (\<lambda>x. (x, ''Dancing Queen '', ''track'', 5)) (0 # hs))"
proof -
  have 1: "[abba] \<noteq> [] \<and> CHR ''('' \<notin> set (title ex_track)"
    by (simp add: ex_track_def)
  have 2: "[unrelated] = [] \<or> CHR ''('' \<in> set (title live_track)"
    by (simp add: live_track_def)
  have 3: "saveSearch ex_literal ex_inputs 0 (title live_track) ''track'' 5 ex_world =
     Some (Inr (0, Some [unrelated]),
           ex_world\<lparr>trace := [Search 0 ''Dancing Queen (Live)'' ''track'' 5]\<rparr>)"
    by (simp add: saveSearch.simps ex_literal_def live_track_def ex_defs)
  have 4: "track_body ex_literal ex_inputs live_track (0, [], []) ex_world =
     Some (Inr (0, [abba], []),
           ex_world\<lparr>trace :=
             [Search 0 ''Dancing Queen (Live)'' ''track'' 5,
              Log ''retrying search for %s'' [''Dancing Queen (Live)''],
              Search 0 ''Dancing Queen '' ''track'' 5]\<rparr>)"
    by (simp add: track_body_def retry_search_def subscript0_def saveSearch.simps
        ex_literal_def live_track_def unrelated_def abba_def ex_defs
        ascii_lower_def difflib_quick_ratio_def)
  note t2 = relaxed_query [where E = ex_calm and U = ex_inputs and t = ex_track and h = 0
      and cs = "[abba]" and w = ex_world, THEN conjunct2, THEN conjunct1, rule_format, OF 1]
  note t3 = relaxed_query [where E = ex_literal and U = ex_inputs and t = live_track and h = 0
      and cs = "[unrelated]" and w = ex_world,
      THEN conjunct2, THEN conjunct2, THEN conjunct1, rule_format, OF 2]
  note t4 = relaxed_query [where E = ex_literal and U = ex_inputs and t = live_track
      and plex = 0 and pts = "[]" and mts = "[]" and w = ex_world,
      THEN conjunct2, THEN conjunct2, THEN conjunct2, rule_format, OF conjI, OF 4 3]
  have 5: "retry_search ex_literal ex_inputs live_track 0 (Some [unrelated]) ex_world =
     Some (Inr (0, Some [unrelated, abba]),
           ex_world\<lparr>trace :=
             [Log ''retrying search for %s'' [''Dancing Queen (Live)''],
              Search 0 ''Dancing Queen '' ''track'' 5]\<rparr>)"
    unfolding t3 by (simp add: saveSearch.simps ex_literal_def live_track_def ex_defs)
  from t4 have 6: "\<exists>evs hs evs'.
      [Search 0 ''Dancing Queen (Live)'' ''track'' 5,
       Log ''retrying search for %s'' [''Dancing Queen (Live)''],
       Search 0 ''Dancing Queen '' ''track'' 5] =
        [Search 0 ''Dancing Queen (Live)'' ''track'' 5] @ evs \<and>
      evs = Log ''retrying search for %s'' [''Dancing Queen (Live)''] #
              Search 0 ''Dancing Queen '' ''track'' 5 # evs' \<and>
      searches evs = map (\<lambda>x. (x, ''Dancing Queen '', ''track'', 5)) (0 # hs)"
    by (simp add: live_track_def ex_world_def)
  from t2 2 3 4 5 6 show ?thesis by blast
qed

text \<open>
  The claim as stated fails: the title contains a parenthesis and the first query is
  rejected as a bad request, which the claim counts as zero candidates, yet no relaxed
  query follows and the track is reported missing.
\<close>

theorem relaxed_query_after_bad_request_counterexample:
  "CHR ''('' \<in> set (title live_track) \<and>
   search_reply ex_strict [] 0 (title live_track) ''track'' 5 = Inl BadRequest \<and>
   map_option (searches \<circ> trace \<circ> snd)
     (track_body ex_strict ex_inputs live_track (0, [], []) ex_world) =
     Some [(0, ''Dancing Queen (Live)'', ''track'', 5)] \<and>
   map_option fst (track_body ex_strict ex_inputs live_track (0, [], []) ex_world) =
     Some (Inr (0, [], [live_track]))"
  by (simp add: track_body_def retry_search_def saveSearch.simps ex_strict_def
      live_track_def ex_defs)

section \<open>A title that starts with a parenthesis\<close>

text \<open>
  Claim C10.  When the title starts with a parenthesis and the first query did not fail
  permanently, the track is resolved through a relaxed query whose search string is
  empty: the body of the loop is that query followed by the loop over the candidates of
  both queries, and whenever the body returns, the first events after the first query are
  the log line and the search for the empty string.
\<close>

theorem leading_parenthesis_query:
  "title t = CHR ''('' # rest \<and>
   saveSearch E U plex (title t) ''track'' 5 w = Some (Inr (h1, Some cs), w1) \<longrightarrow>
     track_body E U t (plex, pts, mts) w =
       (case saveSearch E U h1 [] ''track'' 5
               (logging_info ''retrying search for %s'' [title t] w1) of
          None \<Rightarrow> None
        | Some (Inl e, w2) \<Rightarrow> Some (Inl e, w2)
        | Some (Inr (h2, r2), w2) \<Rightarrow>
            (case for_s_in_search E t (cs @ (case r2 of None \<Rightarrow> [] | Some ns \<Rightarrow> ns)) w2 of
               (Inl e, w3) \<Rightarrow> Some (Inl e, w3)
             | (Inr (Some s), w3) \<Rightarrow> Some (Inr (h2, pts @ iter_track E s, mts), w3)
             | (Inr None, w3) \<Rightarrow> Some (Inr (h2, pts, mts @ [t]), w3))) \<and>
     (\<forall>res w'. track_body E U t (plex, pts, mts) w = Some (res, w') \<longrightarrow>
        (\<exists>evs. trace w' =
           trace w1 @ Log ''retrying search for %s'' [title t] # Search h1 [] ''track'' 5 # evs))"
proof (intro impI conjI allI)
  assume a: "title t = CHR ''('' # rest \<and>
   saveSearch E U plex (title t) ''track'' 5 w = Some (Inr (h1, Some cs), w1)"
  then have d: "cs = [] \<or> CHR ''('' \<in> set (title t)"
    and q: "takeWhile (\<lambda>c. c \<noteq> CHR ''('') (title t) = []"
    by simp_all
  from a have f: "saveSearch E U plex (title t) ''track'' 5 w = Some (Inr (h1, Some cs), w1)"
    by (rule conjunct2)
  let ?s2 = "saveSearch E U h1 [] ''track'' 5
               (logging_info ''retrying search for %s'' [title t] w1)"
  have r: "retry_search E U t h1 (Some cs) w1 =
        (case ?s2 of
           None \<Rightarrow> None
         | Some (Inl e, w2) \<Rightarrow> Some (Inl e, w2)
         | Some (Inr (h', None), w2) \<Rightarrow> Some (Inr (h', Some cs), w2)
         | Some (Inr (h', Some ns), w2) \<Rightarrow> Some (Inr (h', Some (cs @ ns)), w2))"
    by (simp only: retry_search_due [OF d] q)
  show "track_body E U t (plex, pts, mts) w =
       (case ?s2 of
          None \<Rightarrow> None
        | Some (Inl e, w2) \<Rightarrow> Some (Inl e, w2)
        | Some (Inr (h2, r2), w2) \<Rightarrow>
            (case for_s_in_search E t (cs @ (case r2 of None \<Rightarrow> [] | Some ns \<Rightarrow> ns)) w2 of
               (Inl e, w3) \<Rightarrow> Some (Inl e, w3)
             | (Inr (Some s), w3) \<Rightarrow> Some (Inr (h2, pts @ iter_track E s, mts), w3)
             | (Inr None, w3) \<Rightarrow> Some (Inr (h2, pts, mts @ [t]), w3)))"
  proof (cases ?s2)
    case None
    then show ?thesis by (simp add: track_body_def f r)
  next
    case (Some y)
    obtain res2 w2 where y: "y = (res2, w2)" by (cases y)
    show ?thesis
    proof (cases res2)
      case (Inl e)
      with Some y show ?thesis by (simp add: track_body_def f r)
    next
      case (Inr hr)
      obtain h2 r2 where hr: "hr = (h2, r2)" by (cases hr)
      from Some y Inr hr show ?thesis
        by (cases r2) (simp_all add: track_body_def f r)
    qed
  qed
  fix res w'
  assume b: "track_body E U t (plex, pts, mts) w = Some (res, w')"
  from track_body_after_first_query [OF b conjunct2 [OF a]] q a
  show "\<exists>evs. trace w' =
           trace w1 @ Log ''retrying search for %s'' [title t] # Search h1 [] ''track'' 5 # evs"
    by auto
qed

theorem leading_parenthesis_query_witness:
  "title intro_track = CHR ''('' # ''Intro) Dancing Queen'' \<and>
   saveSearch ex_calm ex_inputs 0 (title intro_track) ''track'' 5 ex_world =
     Some (Inr (0, Some []),
           ex_world\<lparr>trace := [Search 0 ''(Intro) Dancing Queen'' ''track'' 5]\<rparr>) \<and>
   track_body ex_calm ex_inputs intro_track (0, [], []) ex_world =
     Some (Inr (0, [], [intro_track]),
           ex_world\<lparr>trace :=
             [Search 0 ''(Intro) Dancing Queen'' ''track'' 5,
              Log ''retrying search for %s'' [''(Intro) Dancing Queen''],
              Search 0 [] ''track'' 5]\<rparr>) \<and>
   (\<exists>evs.
      [Search 0 ''(Intro) Dancing Queen'' ''track'' 5,
       Log ''retrying search for %s'' [''(Intro) Dancing Queen''],
       Search 0 [] ''track'' 5] =
      [Search 0 ''(Intro) Dancing Queen'' ''track'' 5] @
        Log ''retrying search for %s'' [''(Intro) Dancing Queen''] #
        Search 0 [] ''track'' 5 # evs)"
proof -
  have 1: "title intro_track = CHR ''('' # ''Intro) Dancing Queen'' \<and>
      saveSearch ex_calm ex_inputs 0 (title intro_track) ''track'' 5 ex_world =
        Some (Inr (0, Some []),
              ex_world\<lparr>trace := [Search 0 ''(Intro) Dancing Queen'' ''track'' 5]\<rparr>)"
    by (simp add: saveSearch.simps intro_track_def ex_defs)
  note t = leading_parenthesis_query [where E = ex_calm and U = ex_inputs and t = intro_track
      and plex = 0 and w = ex_world and pts = "[]" and mts = "[]", rule_format, OF 1]
  have 2: "track_body ex_calm ex_inputs intro_track (0, [], []) ex_world =
     Some (Inr (0, [], [intro_track]),
           ex_world\<lparr>trace :=
             [Search 0 ''(Intro) Dancing Queen'' ''track'' 5,
              Log ''retrying search for %s'' [''(Intro) Dancing Queen''],
              Search 0 [] ''track'' 5]\<rparr>)"
    unfolding t [THEN conjunct1]
    by (simp add: saveSearch.simps intro_track_def ex_defs)
  from t [THEN conjunct2, rule_format, OF 2] have 3: "\<exists>evs.
      [Search 0 ''(Intro) Dancing Queen'' ''track'' 5,
       Log ''retrying search for %s'' [''(Intro) Dancing Queen''],
       Search 0 [] ''track'' 5] =
      [Search 0 ''(Intro) Dancing Queen'' ''track'' 5] @
        Log ''retrying search for %s'' [''(Intro) Dancing Queen''] #
        Search 0 [] ''track'' 5 # evs"
    by (simp add: intro_track_def ex_world_def)
  from 1 2 3 show ?thesis by blast
qed

section \<open>The partition into resolved and missing tracks\<close>

lemma classify_length:
  "length os = length ts \<Longrightarrow>
   length (fst (classify ts os)) + length (snd (classify ts os)) = length ts"
  by (induction ts os rule: classify.induct) simp_all

lemma track_body_classifies:
  assumes "track_body E U t (p, pts, mts) w = Some (Inr (p', pts', mts'), w')"
  shows "(pts' = pts \<and> mts' = mts @ [t]) \<or> (\<exists>s. pts' = pts @ iter_track E s \<and> mts' = mts)"
  using assms
  by (auto simp: track_body_def split: option.splits sum.splits prod.splits)

lemma for_track_in_tracks_classifies:
  assumes "for_track_in_tracks E U ts (p, pts, mts) w = Some (Inr (p', pts', mts'), w')"
    and "\<forall>s. iter_track E s = [s]"
  shows "\<exists>os. length os = length ts \<and>
            pts' = pts @ fst (classify ts os) \<and> mts' = mts @ snd (classify ts os)"
  using assms(1)
proof (induction ts arbitrary: p pts mts w)
  case Nil
  then show ?case by simp
next
  case (Cons t ts)
  from Cons.prems obtain p1 pts1 mts1 w1 where
    b: "track_body E U t (p, pts, mts) w = Some (Inr (p1, pts1, mts1), w1)" and
    r: "for_track_in_tracks E U ts (p1, pts1, mts1) w1 = Some (Inr (p', pts', mts'), w')"
    by (auto split: option.splits sum.splits prod.splits)
  from Cons.IH [OF r] obtain os where
    2: "length os = length ts" "pts' = pts1 @ fst (classify ts os)"
       "mts' = mts1 @ snd (classify ts os)"
    by blast
  from track_body_classifies [OF b] assms(2)
  consider (missing) "pts1 = pts" "mts1 = mts @ [t]"
    | (found) s where "pts1 = pts @ [s]" "mts1 = mts"
    by auto
  then show ?case
  proof cases
    case missing
    have "length (None # os) = length (t # ts)" using 2 by simp
    moreover have "pts' = pts @ fst (classify (t # ts) (None # os))"
      using missing 2 by simp
    moreover have "mts' = mts @ snd (classify (t # ts) (None # os))"
      using missing 2 by simp
    ultimately show ?thesis by blast
  next
    case found
    have "length (Some s # os) = length (t # ts)" using 2 by simp
    moreover have "pts' = pts @ fst (classify (t # ts) (Some s # os))"
      using found 2 by simp
    moreover have "mts' = mts @ snd (classify (t # ts) (Some s # os))"
      using found 2 by simp
    ultimately show ?thesis by blast
  qed
qed

text \<open>
  Claim C1.  When a pass over the track list returns, and iterating a track object
  yields the object itself (as the objects of \<open>plexapi\<close> do), every descriptor has
  gone to exactly one of the two outputs: there is one outcome per descriptor, the
  accepted candidate or none, such that the resolved tracks are the accepted candidates,
  one entry each, and the missing tracks are the descriptors without one, both in the
  order of the input.  So the two lengths add up to the number of descriptors.
\<close>

theorem every_track_classified_once:
  "get_available_plex_tracks E plex tracks U w = Some (Inr (resolved, missing), w') \<and>
   (\<forall>s. iter_track E s = [s]) \<longrightarrow>
     length resolved + length missing = length tracks \<and>
     (\<exists>os. length os = length tracks \<and> (resolved, missing) = classify tracks os)"
proof
  assume a: "get_available_plex_tracks E plex tracks U w = Some (Inr (resolved, missing), w') \<and>
   (\<forall>s. iter_track E s = [s])"
  then obtain p' where
    "for_track_in_tracks E U tracks (plex, [], []) w = Some (Inr (p', resolved, missing), w')"
    by (auto simp: get_available_plex_tracks_def split: option.splits sum.splits prod.splits)
  from for_track_in_tracks_classifies [OF this] a obtain os where
    os: "length os = length tracks" "resolved = fst (classify tracks os)"
      "missing = snd (classify tracks os)"
    by auto
  from os classify_length [of os tracks] have "length resolved + length missing = length tracks"
    by simp
  moreover from os have "length os = length tracks \<and> (resolved, missing) = classify tracks os"
    by simp
  ultimately show "length resolved + length missing = length tracks \<and>
     (\<exists>os. length os = length tracks \<and> (resolved, missing) = classify tracks os)"
    by blast
qed

theorem every_track_classified_once_witness:
  "get_available_plex_tracks ex_calm 0 [ex_track, live_track] ex_inputs ex_world =
     Some (Inr ([abba], [live_track]),
           ex_world\<lparr>trace :=
             [Search 0 ''Dancing Queen'' ''track'' 5,
              Search 0 ''Dancing Queen (Live)'' ''track'' 5,
              Log ''retrying search for %s'' [''Dancing Queen (Live)''],
              Search 0 ''Dancing Queen '' ''track'' 5]\<rparr>) \<and>
   (\<forall>s. iter_track ex_calm s = [s]) \<and>
   length [abba] + length [live_track] = length [ex_track, live_track] \<and>
   ([abba], [live_track]) = classify [ex_track, live_track] [Some abba, None]"
proof -
  have 1: "get_available_plex_tracks ex_calm 0 [ex_track, live_track] ex_inputs ex_world =
     Some (Inr ([abba], [live_track]),
           ex_world\<lparr>trace :=
             [Search 0 ''Dancing Queen'' ''track'' 5,
              Search 0 ''Dancing Queen (Live)'' ''track'' 5,
              Log ''retrying search for %s'' [''Dancing Queen (Live)''],
              Search 0 ''Dancing Queen '' ''track'' 5]\<rparr>)"
    by (simp add: get_available_plex_tracks_def track_body_def retry_search_def subscript0_def
        saveSearch.simps ex_track_def live_track_def abba_def ex_defs
        ascii_lower_def difflib_quick_ratio_def)
  have 2: "\<forall>s. iter_track ex_calm s = [s]"
    by (simp add: ex_calm_def)
  from every_track_classified_once [rule_format, OF conjI, OF 1 2]
  have "length [abba] + length [live_track] = length [ex_track, live_track]"
    by simp
  with 1 2 show ?thesis by simp
qed

section \<open>What the resolution of the tracks leaves alone\<close>

lemma same_stores_refl [simp]: "same_stores w w"
  by (simp add: same_stores_def)

lemma same_stores_trans: "same_stores w w1 \<Longrightarrow> same_stores w1 w2 \<Longrightarrow> same_stores w w2"
  by (simp add: same_stores_def)

lemma same_stores_logging_info [simp]: "same_stores w (logging_info f a w)"
  by (simp add: same_stores_def)

lemma same_stores_time_sleep [simp]: "same_stores w (time_sleep n w)"
  by (simp add: same_stores_def)

lemma same_stores_search [simp]: "same_stores w (emit (Search h q m l) w)"
  by (simp add: same_stores_def)

lemma same_stores_connect [simp]: "same_stores w (emit (NewServer u k n) w)"
  by (simp add: same_stores_def)

lemma createPlexServer_same_stores:
  "createPlexServer E U w = Some y \<Longrightarrow> same_stores w (snd y)"
proof (induction rule: createPlexServer.raw_induct [rotated 1, consumes 1])
  case (1 createPlexServer E U w y)
  let ?w1 = "emit (NewServer (plex_url U) (plex_token U) 90)
               (logging_info ''Try to create a new plex server object'' [] w)"
  have s1: "same_stores w ?w1"
    by (rule same_stores_trans [OF same_stores_logging_info same_stores_connect])
  show ?case
  proof (cases "connect_reply E (trace w @ [Log ''Try to create a new plex server object'' []])")
    case (Inr h)
    with 1(2) have "snd y = ?w1" by (auto simp: PlexServer_def)
    with s1 show ?thesis by simp
  next
    case (Inl e)
    let ?w2 = "time_sleep 5
        (logging_info ''Error while creating. waiting for 5sek and try again'' [] ?w1)"
    from Inl 1(2) have "createPlexServer E U ?w2 = Some y"
      by (simp add: PlexServer_def)
    from 1(1) [OF this] have "same_stores ?w2 (snd y)" .
    moreover have "same_stores w ?w2"
      by (rule same_stores_trans [OF s1])
         (rule same_stores_trans [OF same_stores_logging_info same_stores_time_sleep])
    ultimately show ?thesis by (rule same_stores_trans [rotated])
  qed
qed

lemma saveSearch_same_stores:
  "saveSearch E U h q m l w = Some y \<Longrightarrow> same_stores w (snd y)"
proof (induction rule: saveSearch.raw_induct [rotated 1, consumes 1])
  case (1 saveSearch E U h q m l w y)
  show ?case
  proof (cases "search_reply E (trace w) h q m l")
    case (Inr rs)
    with 1(2) have "snd y = emit (Search h q m l) w" by (auto simp: plex_search_def)
    then show ?thesis by simp
  next
    case (Inl e)
    show ?thesis
    proof (cases "e = BadRequest")
      case True
      with Inl 1(2) have "snd y =
          logging_info ''failed to search %s on plex'' [q] (emit (Search h q m l) w)"
        by (auto simp: plex_search_def)
      then show ?thesis
        by (simp add: same_stores_trans [OF same_stores_search same_stores_logging_info])
    next
      case False
      let ?w1 = "logging_info ''exception while searching for %s '' [q] (emit (Search h q m l) w)"
      have s1: "same_stores w ?w1"
        by (rule same_stores_trans [OF same_stores_search same_stores_logging_info])
      from False Inl 1(2) obtain r2 w2 where c0: "createPlexServer E U ?w1 = Some (r2, w2)"
        by (auto simp: plex_search_def split: option.splits)
      from createPlexServer_returns [OF c0] obtain h2 where r2: "r2 = Inr h2"
        by auto
      from createPlexServer_same_stores [OF c0] have s2: "same_stores ?w1 w2" by simp
      from False Inl 1(2) c0 r2 have "saveSearch E U h2 q m l w2 = Some y"
        by (simp add: plex_search_def)
      from 1(1) [OF this] have "same_stores w2 (snd y)" .
      with s1 s2 show ?thesis by (blast intro: same_stores_trans)
    qed
  qed
qed

lemma retry_search_same_stores:
  assumes "retry_search E U t h r w = Some y"
  shows "same_stores w (snd y)"
proof (cases "r \<noteq> None \<and> (r = Some [] \<or> CHR ''('' \<in> set (title t))")
  case False
  with assms have "snd y = w"
    by (cases r) (auto simp: retry_search_None retry_search_skip)
  then show ?thesis by simp
next
  case True
  then obtain cs where r: "r = Some cs" and d: "cs = [] \<or> CHR ''('' \<in> set (title t)"
    by auto
  let ?w1 = "logging_info ''retrying search for %s'' [title t] w"
  from assms r obtain y2 where
    y2: "saveSearch E U h (takeWhile (\<lambda>c. c \<noteq> CHR ''('') (title t)) ''track'' 5 ?w1 = Some y2"
    and "snd y = snd y2"
    by (auto simp: retry_search_due [OF d] split: option.splits sum.splits prod.splits)
  with saveSearch_same_stores [OF y2] have "same_stores ?w1 (snd y)" by simp
  then show ?thesis by (rule same_stores_trans [OF same_stores_logging_info])
qed

lemma for_s_in_search_same_stores: "same_stores w (snd (for_s_in_search E t cs w))"
proof (induction cs arbitrary: w)
  case Nil
  then show ?case by simp
next
  case (Cons s cs)
  let ?w1 = "logging_info
     ''Looks like plex mismatched the search for %s, retrying with next result'' [title t] w"
  have "for_s_in_search E t (s # cs) w = for_s_in_search E t cs w \<or>
      for_s_in_search E t (s # cs) w = for_s_in_search E t cs ?w1 \<or>
      snd (for_s_in_search E t (s # cs) w) = w"
    by (simp split: sum.splits)
  then consider (a) "for_s_in_search E t (s # cs) w = for_s_in_search E t cs w"
    | (b) "for_s_in_search E t (s # cs) w = for_s_in_search E t cs ?w1"
    | (c) "snd (for_s_in_search E t (s # cs) w) = w"
    by blast
  then show ?case
  proof cases
    case a
    with Cons [of w] show ?thesis by simp
  next
    case b
    with Cons [of ?w1] same_stores_trans [OF same_stores_logging_info] show ?thesis by simp
  next
    case c
    then show ?thesis by simp
  qed
qed

lemma track_body_same_stores:
  assumes "track_body E U t st w = Some y"
  shows "same_stores w (snd y)"
proof -
  obtain p pts mts where st: "st = (p, pts, mts)" by (cases st)
  from assms st obtain x1 w1 where
    y1: "saveSearch E U p (title t) ''track'' 5 w = Some (x1, w1)"
    by (auto simp: track_body_def split: option.splits)
  from saveSearch_same_stores [OF y1] have s1: "same_stores w w1" by simp
  from saveSearch_returns [OF y1] obtain h1 r1 where x1: "x1 = Inr (h1, r1)"
    by auto
  from assms st y1 x1 obtain x2 w2 where
    y2: "retry_search E U t h1 r1 w1 = Some (x2, w2)"
    by (auto simp: track_body_def split: option.splits)
  from retry_search_same_stores [OF y2] have s2: "same_stores w1 w2" by simp
  show ?thesis
  proof (cases x2)
    case (Inl e)
    with assms st y1 x1 y2 have "snd y = w2"
      by (auto simp: track_body_def)
    with s1 s2 show ?thesis by (auto intro: same_stores_trans)
  next
    case (Inr hr)
    obtain h2 r2 where hr: "hr = (h2, r2)" by (cases hr)
    let ?cs = "case r2 of None \<Rightarrow> [] | Some cs \<Rightarrow> cs"
    from assms st y1 x1 y2 Inr hr have "snd y = snd (for_s_in_search E t ?cs w2)"
      by (cases "for_s_in_search E t ?cs w2")
         (auto simp: track_body_def split: sum.splits option.splits)
    with for_s_in_search_same_stores [of w2 E t ?cs] s1 s2 show ?thesis
      by (auto intro: same_stores_trans)
  qed
qed

lemma for_track_in_tracks_same_stores:
  "for_track_in_tracks E U ts st w = Some y \<Longrightarrow> same_stores w (snd y)"
proof (induction ts arbitrary: st w)
  case Nil
  then show ?case by auto
next
  case (Cons t ts)
  from Cons.prems obtain x1 w1 where y1: "track_body E U t st w = Some (x1, w1)"
    by (auto split: option.splits)
  from track_body_same_stores [OF y1] have s1: "same_stores w w1" by simp
  show ?case
  proof (cases x1)
    case (Inl e)
    with Cons.prems y1 have "snd y = w1" by auto
    with s1 show ?thesis by simp
  next
    case (Inr st1)
    with Cons.prems y1 have "for_track_in_tracks E U ts st1 w1 = Some y" by auto
    from Cons.IH [OF this] s1 show ?thesis by (auto intro: same_stores_trans)
  qed
qed

lemma get_available_plex_tracks_same_stores:
  assumes "get_available_plex_tracks E plex tracks U w = Some y"
  shows "same_stores w (snd y)"
proof -
  from assms obtain y1 where
    y1: "for_track_in_tracks E U tracks (plex, [], []) w = Some y1" and "snd y = snd y1"
    by (auto simp: get_available_plex_tracks_def split: option.splits sum.splits prod.splits)
  with for_track_in_tracks_same_stores [OF y1] show ?thesis by simp
qed

section \<open>A pass that resolves nothing\<close>

lemma write_missing_frame:
  "playlists (write_missing E pl ms U w) = playlists w \<and>
   filter playlist_call (trace (write_missing E pl ms U w)) = filter playlist_call (trace w)"
  by (simp add: write_missing_def write_csv_def Let_def split: option.splits)

lemma delete_missing_frame:
  "playlists (delete_missing E pl ms U w) = playlists w \<and>
   filter playlist_call (trace (delete_missing E pl ms U w)) = filter playlist_call (trace w)"
  by (simp add: delete_missing_def delete_csv_def Let_def split: option.splits)

text \<open>
  Claim C5.  When the resolution of the tracks returns no resolved track, the pass
  returns without an exception, the playlists of the server are what they were before
  the pass, and the pass has made no call on a playlist: no lookup, no \<open>removeItems\<close>,
  \<open>addItems\<close> or \<open>createPlaylist\<close>, no \<open>edit\<close> and no \<open>uploadPoster\<close>.
\<close>

theorem empty_resolution_no_mutation:
  "get_available_plex_tracks E plex tracks U w = Some (Inr ([], missing), w1) \<longrightarrow>
     (\<exists>w'. update_or_create_plex_playlist E plex pl tracks U w = Some (Inr (), w') \<and>
        playlists w' = playlists w \<and>
        filter playlist_call (trace w') = filter playlist_call (trace w))"
proof
  assume a: "get_available_plex_tracks E plex tracks U w = Some (Inr ([], missing), w1)"
  let ?w2 = "logging_info
     ''No songs for playlist %s were found on plex, skipping the playlist creation''
     [name pl] w1"
  let ?w' = "delete_missing E pl missing U (write_missing E pl missing U ?w2)"
  from get_available_plex_tracks_same_stores [OF a]
  have 1: "playlists w1 = playlists w"
    "filter playlist_call (trace w1) = filter playlist_call (trace w)"
    by (simp_all add: same_stores_def)
  have 2: "update_or_create_plex_playlist E plex pl tracks U w = Some (Inr (), ?w')"
    by (simp add: update_or_create_plex_playlist_def a apply_playlist_def)
  have 3: "playlists ?w' = playlists w"
    using 1 by (simp add: write_missing_frame delete_missing_frame)
  have 4: "filter playlist_call (trace ?w') = filter playlist_call (trace w)"
    using 1 by (simp add: write_missing_frame delete_missing_frame)
  from 2 3 4 show "\<exists>w'. update_or_create_plex_playlist E plex pl tracks U w = Some (Inr (), w') \<and>
        playlists w' = playlists w \<and>
        filter playlist_call (trace w') = filter playlist_call (trace w)"
    by blast
qed

theorem empty_resolution_no_mutation_witness:
  "get_available_plex_tracks ex_calm 0 [live_track] ex_inputs ex_world_gold =
     Some (Inr ([], [live_track]),
           ex_world_gold\<lparr>trace :=
             [Search 0 ''Dancing Queen (Live)'' ''track'' 5,
              Log ''retrying search for %s'' [''Dancing Queen (Live)''],
              Search 0 ''Dancing Queen '' ''track'' 5]\<rparr>) \<and>
   map_option fst
     (update_or_create_plex_playlist ex_calm 0 ex_playlist [live_track] ex_inputs ex_world_gold) =
     Some (Inr ()) \<and>
   map_option (playlists \<circ> snd)
     (update_or_create_plex_playlist ex_calm 0 ex_playlist [live_track] ex_inputs ex_world_gold) =
     Some (playlists ex_world_gold) \<and>
   map_option (filter playlist_call \<circ> trace \<circ> snd)
     (update_or_create_plex_playlist ex_calm 0 ex_playlist [live_track] ex_inputs ex_world_gold) =
     Some []"
proof -
  have 1: "get_available_plex_tracks ex_calm 0 [live_track] ex_inputs ex_world_gold =
     Some (Inr ([], [live_track]),
           ex_world_gold\<lparr>trace :=
             [Search 0 ''Dancing Queen (Live)'' ''track'' 5,
              Log ''retrying search for %s'' [''Dancing Queen (Live)''],
              Search 0 ''Dancing Queen '' ''track'' 5]\<rparr>)"
    by (simp add: get_available_plex_tracks_def track_body_def retry_search_def subscript0_def
        saveSearch.simps live_track_def ex_world_gold_def ex_defs)
  from empty_resolution_no_mutation [rule_format, OF 1, of ex_playlist] obtain w' where
    "update_or_create_plex_playlist ex_calm 0 ex_playlist [live_track] ex_inputs ex_world_gold =
       Some (Inr (), w')"
    "playlists w' = playlists ex_world_gold"
    "filter playlist_call (trace w') = filter playlist_call (trace ex_world_gold)"
    by blast
  with 1 show ?thesis by (simp add: ex_world_gold_def ex_world_def)
qed

section \<open>The handle used after the tracks are resolved\<close>

text \<open>
  Claim C9 does not hold for the code.  Inside \<open>_get_available_plex_tracks\<close> every
  search goes through the handle the previous search returned, but the function returns
  only the two lists, so \<open>update_or_create_plex_playlist\<close> goes on with the handle it
  was called with.  In the run below the first search through handle \<open>0\<close> fails, a
  new connection gives handle \<open>1\<close>, the search is repeated through it, and every
  playlist call that follows goes through handle \<open>0\<close> again.
\<close>

theorem playlist_calls_use_initial_handle:
  "map_option fst (saveSearch ex_flaky ex_inputs 0 ''Dancing Queen'' ''track'' 5 ex_world) =
     Some (Inr (1, Some [abba])) \<and>
   map_option (searches \<circ> trace \<circ> snd)
     (update_or_create_plex_playlist ex_flaky 0 ex_playlist [ex_track] ex_inputs ex_world) =
     Some [(0, ''Dancing Queen'', ''track'', 5), (1, ''Dancing Queen'', ''track'', 5)] \<and>
   map_option (filter playlist_call \<circ> trace \<circ> snd)
     (update_or_create_plex_playlist ex_flaky 0 ex_playlist [ex_track] ex_inputs ex_world) =
     Some [GetPlaylist 0 ''ABBA Gold'',
           CreatePlaylist 0 ''ABBA Gold'' [abba],
           GetPlaylist 0 ''ABBA Gold'',
           Edit 0 ''ABBA Gold'' ''Greatest hits'',
           UploadPoster 0 ''ABBA Gold'' ''https://example.org/p/1.jpg'']"
  by (simp add: update_or_create_plex_playlist_def get_available_plex_tracks_def track_body_def
      retry_search_def saveSearch.simps createPlexServer.simps apply_playlist_def
      update_or_create_def update_plex_playlist_def server_playlist_def createPlaylist_def
      set_description_def set_poster_def playlist_edit_def uploadPoster_def
      write_missing_def delete_missing_def delete_csv_def Let_def
      ex_track_def ex_playlist_def abba_def ex_defs ascii_lower_def difflib_quick_ratio_def)

section \<open>The missing-tracks file\<close>

lemma server_playlist_files: "server_playlist E h nm w = (x, w1) \<Longrightarrow> files w1 = files w"
  by (auto simp: server_playlist_def Let_def split: option.splits)

lemma playlist_items_files: "playlist_items E pp w = (x, w1) \<Longrightarrow> files w1 = files w"
  by (auto simp: playlist_items_def Let_def split: option.splits)

lemma removeItems_files: "removeItems E pp its w = (x, w1) \<Longrightarrow> files w1 = files w"
  by (auto simp: removeItems_def Let_def split: option.splits)

lemma addItems_files: "addItems E pp its w = (x, w1) \<Longrightarrow> files w1 = files w"
  by (auto simp: addItems_def Let_def split: option.splits)

lemma createPlaylist_files: "createPlaylist E h nm its w = (x, w1) \<Longrightarrow> files w1 = files w"
  by (auto simp: createPlaylist_def Let_def split: option.splits)

lemma set_description_files: "files (set_description E pp pl U w) = files w"
  by (auto simp: set_description_def playlist_edit_def Let_def split: option.splits)

lemma set_poster_files: "files (set_poster E pp pl U w) = files w"
  by (auto simp: set_poster_def uploadPoster_def Let_def split: option.splits)

lemma update_plex_playlist_files:
  "update_plex_playlist E plex av pl ap w = (x, w1) \<Longrightarrow> files w1 = files w"
  by (auto simp: update_plex_playlist_def split: prod.splits sum.splits if_splits
      dest!: server_playlist_files playlist_items_files removeItems_files addItems_files)

lemma update_or_create_files:
  "update_or_create E plex pl av U w = (x, w1) \<Longrightarrow> files w1 = files w"
  by (auto simp: update_or_create_def split: prod.splits sum.splits if_splits
      dest!: update_plex_playlist_files createPlaylist_files server_playlist_files)

lemma apply_playlist_files:
  "apply_playlist E plex pl av U w = (x, w1) \<Longrightarrow> files w1 = files w"
  by (auto simp: apply_playlist_def set_description_files set_poster_files
      split: prod.splits sum.splits if_splits dest!: update_or_create_files)

lemma write_missing_written:
  assumes "ms \<noteq> []" and "write_missing_as_csv U"
  shows "(fault E (trace w) (WriteCsv (name pl) (csv_rows E ms)) = None \<longrightarrow>
            files (write_missing E pl ms U w) = (files w)(name pl \<mapsto> csv_rows E ms) \<and>
            trace (write_missing E pl ms U w) =
              trace w @ [WriteCsv (name pl) (csv_rows E ms),
                         Log ''Missing tracks written to %s.csv'' [name pl]]) \<and>
         (fault E (trace w) (WriteCsv (name pl) (csv_rows E ms)) \<noteq> None \<longrightarrow>
            trace (write_missing E pl ms U w) =
              trace w @ [WriteCsv (name pl) (csv_rows E ms),
                         Log ''Failed to write missing tracks for %s, likely permission issue''
                           [name pl]])"
  using assms
  by (auto simp: write_missing_def write_csv_def csv_rows_def Let_def split: option.splits)

lemma write_missing_skipped: "ms = [] \<Longrightarrow> write_missing E pl ms U w = w"
  by (simp add: write_missing_def)

lemma delete_missing_skipped: "ms \<noteq> [] \<Longrightarrow> delete_missing E pl ms U w = w"
  by (simp add: delete_missing_def)

lemma delete_missing_deleted:
  assumes "ms = []" and "write_missing_as_csv U"
  shows "(fault E (trace w) (DeleteCsv (name pl)) = None \<and> files w (name pl) \<noteq> None \<longrightarrow>
            files (delete_missing E pl ms U w) = (files w)(name pl := None) \<and>
            trace (delete_missing E pl ms U w) =
              trace w @ [DeleteCsv (name pl), Log ''Deleted old %s.csv'' [name pl]]) \<and>
         (fault E (trace w) (DeleteCsv (name pl)) \<noteq> None \<or> files w (name pl) = None \<longrightarrow>
            trace (delete_missing E pl ms U w) =
              trace w @ [DeleteCsv (name pl),
                         Log ''Failed to delete %s.csv, likely permission issue'' [name pl]])"
  using assms
  by (auto simp: delete_missing_def delete_csv_def Let_def split: option.splits)

text \<open>
  Claim C6.  With \<open>write_missing_as_csv\<close> set, once the tracks are resolved and the
  playlist part of the pass is through, the pass returns without an exception.  When
  tracks are missing, it writes the file named after the playlist with the header and one
  row per missing track (title, artist, album, url), and logs that it did, or logs the
  failure when the write raises.  When no track is missing, it deletes the file of that
  name, and logs that it did, or logs the failure when the deletion raises or there is
  no such file.  Nothing before this step touches the files.
\<close>

theorem missing_record_bookkeeping:
  "write_missing_as_csv U \<and>
   get_available_plex_tracks E plex tracks U w = Some (Inr (avail, missing), w1) \<and>
   apply_playlist E plex pl avail U w1 = (Inr (), w2) \<longrightarrow>
     files w2 = files w \<and>
     (\<exists>w3. update_or_create_plex_playlist E plex pl tracks U w = Some (Inr (), w3) \<and>
        (missing \<noteq> [] \<longrightarrow>
           (fault E (trace w2) (WriteCsv (name pl) (csv_rows E missing)) = None \<longrightarrow>
              files w3 = (files w)(name pl \<mapsto> csv_rows E missing) \<and>
              trace w3 =
                trace w2 @ [WriteCsv (name pl) (csv_rows E missing),
                            Log ''Missing tracks written to %s.csv'' [name pl]]) \<and>
           (fault E (trace w2) (WriteCsv (name pl) (csv_rows E missing)) \<noteq> None \<longrightarrow>
              trace w3 =
                trace w2 @ [WriteCsv (name pl) (csv_rows E missing),
                            Log ''Failed to write missing tracks for %s, likely permission issue''
                              [name pl]])) \<and>
        (missing = [] \<longrightarrow>
           (fault E (trace w2) (DeleteCsv (name pl)) = None \<and> files w (name pl) \<noteq> None \<longrightarrow>
              files w3 = (files w)(name pl := None) \<and>
              trace w3 =
                trace w2 @ [DeleteCsv (name pl), Log ''Deleted old %s.csv'' [name pl]]) \<and>
           (fault E (trace w2) (DeleteCsv (name pl)) \<noteq> None \<or> files w (name pl) = None \<longrightarrow>
              trace w3 =
                trace w2 @ [DeleteCsv (name pl),
                            Log ''Failed to delete %s.csv, likely permission issue''
                              [name pl]])))"
proof (intro impI)
  assume a: "write_missing_as_csv U \<and>
   get_available_plex_tracks E plex tracks U w = Some (Inr (avail, missing), w1) \<and>
   apply_playlist E plex pl avail U w1 = (Inr (), w2)"
  then have u: "write_missing_as_csv U"
    and g: "get_available_plex_tracks E plex tracks U w = Some (Inr (avail, missing), w1)"
    and p: "apply_playlist E plex pl avail U w1 = (Inr (), w2)"
    by blast+
  from get_available_plex_tracks_same_stores [OF g] have "files w1 = files w"
    by (simp add: same_stores_def)
  with apply_playlist_files [OF p] have f: "files w2 = files w" by simp
  let ?w3 = "delete_missing E pl missing U (write_missing E pl missing U w2)"
  have r: "update_or_create_plex_playlist E plex pl tracks U w = Some (Inr (), ?w3)"
    by (simp add: update_or_create_plex_playlist_def g p)
  have A: "missing \<noteq> [] \<longrightarrow>
           (fault E (trace w2) (WriteCsv (name pl) (csv_rows E missing)) = None \<longrightarrow>
              files ?w3 = (files w)(name pl \<mapsto> csv_rows E missing) \<and>
              trace ?w3 =
                trace w2 @ [WriteCsv (name pl) (csv_rows E missing),
                            Log ''Missing tracks written to %s.csv'' [name pl]]) \<and>
           (fault E (trace w2) (WriteCsv (name pl) (csv_rows E missing)) \<noteq> None \<longrightarrow>
              trace ?w3 =
                trace w2 @ [WriteCsv (name pl) (csv_rows E missing),
                            Log ''Failed to write missing tracks for %s, likely permission issue''
                              [name pl]])"
  proof
    assume m: "missing \<noteq> []"
    from write_missing_written [OF m u, of E w2 pl] f m
    show "(fault E (trace w2) (WriteCsv (name pl) (csv_rows E missing)) = None \<longrightarrow>
              files ?w3 = (files w)(name pl \<mapsto> csv_rows E missing) \<and>
              trace ?w3 =
                trace w2 @ [WriteCsv (name pl) (csv_rows E missing),
                            Log ''Missing tracks written to %s.csv'' [name pl]]) \<and>
           (fault E (trace w2) (WriteCsv (name pl) (csv_rows E missing)) \<noteq> None \<longrightarrow>
              trace ?w3 =
                trace w2 @ [WriteCsv (name pl) (csv_rows E missing),
                            Log ''Failed to write missing tracks for %s, likely permission issue''
                              [name pl]])"
      by (simp add: delete_missing_skipped)
  qed
  have B: "missing = [] \<longrightarrow>
           (fault E (trace w2) (DeleteCsv (name pl)) = None \<and> files w (name pl) \<noteq> None \<longrightarrow>
              files ?w3 = (files w)(name pl := None) \<and>
              trace ?w3 =
                trace w2 @ [DeleteCsv (name pl), Log ''Deleted old %s.csv'' [name pl]]) \<and>
           (fault E (trace w2) (DeleteCsv (name pl)) \<noteq> None \<or> files w (name pl) = None \<longrightarrow>
              trace ?w3 =
                trace w2 @ [DeleteCsv (name pl),
                            Log ''Failed to delete %s.csv, likely permission issue''
                              [name pl]])"
  proof
    assume m: "missing = []"
    from delete_missing_deleted [OF m u, of E w2 pl] f m
    show "(fault E (trace w2) (DeleteCsv (name pl)) = None \<and> files w (name pl) \<noteq> None \<longrightarrow>
              files ?w3 = (files w)(name pl := None) \<and>
              trace ?w3 =
                trace w2 @ [DeleteCsv (name pl), Log ''Deleted old %s.csv'' [name pl]]) \<and>
           (fault E (trace w2) (DeleteCsv (name pl)) \<noteq> None \<or> files w (name pl) = None \<longrightarrow>
              trace ?w3 =
                trace w2 @ [DeleteCsv (name pl),
                            Log ''Failed to delete %s.csv, likely permission issue''
                              [name pl]])"
      by (simp add: write_missing_skipped)
  qed
  show "files w2 = files w \<and>
     (\<exists>w3. update_or_create_plex_playlist E plex pl tracks U w = Some (Inr (), w3) \<and>
        (missing \<noteq> [] \<longrightarrow>
           (fault E (trace w2) (WriteCsv (name pl) (csv_rows E missing)) = None \<longrightarrow>
              files w3 = (files w)(name pl \<mapsto> csv_rows E missing) \<and>
              trace w3 =
                trace w2 @ [WriteCsv (name pl) (csv_rows E missing),
                            Log ''Missing tracks written to %s.csv'' [name pl]]) \<and>
           (fault E (trace w2) (WriteCsv (name pl) (csv_rows E missing)) \<noteq> None \<longrightarrow>
              trace w3 =
                trace w2 @ [WriteCsv (name pl) (csv_rows E missing),
                            Log ''Failed to write missing tracks for %s, likely permission issue''
                              [name pl]])) \<and>
        (missing = [] \<longrightarrow>
           (fault E (trace w2) (DeleteCsv (name pl)) = None \<and> files w (name pl) \<noteq> None \<longrightarrow>
              files w3 = (files w)(name pl := None) \<and>
              trace w3 =
                trace w2 @ [DeleteCsv (name pl), Log ''Deleted old %s.csv'' [name pl]]) \<and>
           (fault E (trace w2) (DeleteCsv (name pl)) \<noteq> None \<or> files w (name pl) = None \<longrightarrow>
              trace w3 =
                trace w2 @ [DeleteCsv (name pl),
                            Log ''Failed to delete %s.csv, likely permission issue''
                              [name pl]])))"
    by (intro conjI exI [of _ ?w3]) (rule f r A B)+
qed

theorem missing_record_bookkeeping_witness:
  "write_missing_as_csv ex_inputs \<and>
   get_available_plex_tracks ex_calm 0 [live_track] ex_inputs ex_world =
     Some (Inr ([], [live_track]),
           ex_world\<lparr>trace :=
             [Search 0 ''Dancing Queen (Live)'' ''track'' 5,
              Log ''retrying search for %s'' [''Dancing Queen (Live)''],
              Search 0 ''Dancing Queen '' ''track'' 5]\<rparr>) \<and>
   map_option (files \<circ> snd)
     (update_or_create_plex_playlist ex_calm 0 ex_playlist [live_track] ex_inputs ex_world) =
     Some (files ex_world_record) \<and>
   files ex_world_record ''ABBA Gold'' =
     Some [[''title'', ''artist'', ''album'', ''url''],
           [''Dancing Queen (Live)'', ''Abba'', ''Live'', ''https://example.org/t/2'']] \<and>
   get_available_plex_tracks ex_calm 0 [ex_track] ex_inputs ex_world_record =
     Some (Inr ([abba], []),
           ex_world_record\<lparr>trace := [Search 0 ''Dancing Queen'' ''track'' 5]\<rparr>) \<and>
   map_option (files \<circ> snd)
     (update_or_create_plex_playlist ex_calm 0 ex_playlist [ex_track] ex_inputs ex_world_record) =
     Some ((files ex_world_record)(''ABBA Gold'' := None))"
proof -
  let ?T1 = "[Search 0 ''Dancing Queen (Live)'' ''track'' 5,
              Log ''retrying search for %s'' [''Dancing Queen (Live)''],
              Search 0 ''Dancing Queen '' ''track'' 5]"
  let ?W2 = "ex_world\<lparr>trace := ?T1 @
      [Log ''No songs for playlist %s were found on plex, skipping the playlist creation''
         [''ABBA Gold'']]\<rparr>"
  have u: "write_missing_as_csv ex_inputs"
    by (simp add: ex_inputs_def)
  have g1: "get_available_plex_tracks ex_calm 0 [live_track] ex_inputs ex_world =
     Some (Inr ([], [live_track]), ex_world\<lparr>trace := ?T1\<rparr>)"
    by (simp add: get_available_plex_tracks_def track_body_def retry_search_def subscript0_def
        saveSearch.simps live_track_def ex_defs)
  have p1: "apply_playlist ex_calm 0 ex_playlist [] ex_inputs (ex_world\<lparr>trace := ?T1\<rparr>) =
      (Inr (), ?W2)"
    by (simp add: apply_playlist_def ex_playlist_def ex_defs)
  note t1 = missing_record_bookkeeping [rule_format, OF conjI, OF u conjI, OF g1 p1,
      THEN conjunct2]
  have e1: "map_option (files \<circ> snd)
     (update_or_create_plex_playlist ex_calm 0 ex_playlist [live_track] ex_inputs ex_world) =
     Some (files ex_world_record)"
    using t1
    by (elim exE conjE) (simp add: ex_calm_def ex_world_record_def ex_world_def ex_playlist_def)
  have rec: "files ex_world_record ''ABBA Gold'' =
     Some [[''title'', ''artist'', ''album'', ''url''],
           [''Dancing Queen (Live)'', ''Abba'', ''Live'', ''https://example.org/t/2'']]"
    by (simp add: ex_world_record_def csv_rows_def ex_calm_def live_track_def)
  let ?T2 = "[Search 0 ''Dancing Queen'' ''track'' 5]"
  let ?W2' = "ex_world_record\<lparr>trace := ?T2 @
      [GetPlaylist 0 ''ABBA Gold'',
       CreatePlaylist 0 ''ABBA Gold'' [abba],
       Log ''Created playlist %s'' [''ABBA Gold''],
       GetPlaylist 0 ''ABBA Gold'',
       Edit 0 ''ABBA Gold'' ''Greatest hits'',
       UploadPoster 0 ''ABBA Gold'' ''https://example.org/p/1.jpg'',
       Log ''Updated playlist %s with summary and poster'' [''ABBA Gold'']],
     playlists := (playlists ex_world_record)(''ABBA Gold'' \<mapsto> [abba])\<rparr>"
  have g2: "get_available_plex_tracks ex_calm 0 [ex_track] ex_inputs ex_world_record =
     Some (Inr ([abba], []), ex_world_record\<lparr>trace := ?T2\<rparr>)"
    by (simp add: get_available_plex_tracks_def track_body_def retry_search_def
        saveSearch.simps ex_track_def abba_def ex_world_record_def ex_defs
        ascii_lower_def difflib_quick_ratio_def)
  have p2: "apply_playlist ex_calm 0 ex_playlist [abba] ex_inputs
      (ex_world_record\<lparr>trace := ?T2\<rparr>) = (Inr (), ?W2')"
    by (simp add: apply_playlist_def update_or_create_def update_plex_playlist_def
        server_playlist_def createPlaylist_def set_description_def set_poster_def
        playlist_edit_def uploadPoster_def Let_def ex_playlist_def ex_world_record_def ex_defs)
  note t2 = missing_record_bookkeeping [rule_format, OF conjI, OF u conjI, OF g2 p2,
      THEN conjunct2]
  have e2: "map_option (files \<circ> snd)
     (update_or_create_plex_playlist ex_calm 0 ex_playlist [ex_track] ex_inputs ex_world_record) =
     Some ((files ex_world_record)(''ABBA Gold'' := None))"
    using t2 rec
    by (elim exE conjE) (simp add: ex_calm_def ex_playlist_def)
  from u g1 e1 rec g2 e2 show ?thesis by simp
qed

section \<open>Replacing or appending the items of a playlist\<close>

lemma remove_all_items: "foldl (\<lambda>ys x. remove1 x ys) xs xs = []"
  by (induction xs) simp_all

lemma item_change_playlist_call: "item_change ev \<Longrightarrow> playlist_call ev"
  by (cases ev) simp_all

lemma filter_item_change_playlist_call:
  "filter item_change (filter playlist_call tr) = filter item_change tr"
  by (induction tr) (auto dest: item_change_playlist_call)

lemma item_changes_eq:
  "filter playlist_call tr' = filter playlist_call tr \<Longrightarrow>
   filter item_change tr' = filter item_change tr"
  by (metis filter_item_change_playlist_call)

lemma update_plex_playlist_sync:
  assumes "\<forall>tr ev. updates_playlist ev \<longrightarrow> fault E tr ev = None"
    and "playlists w (name pl) = Some old"
  shows "\<exists>w'. update_plex_playlist E plex av pl False w = (Inr (plex, name pl), w') \<and>
    playlists w' = (playlists w)(name pl \<mapsto> av) \<and>
    trace w' = trace w @ [GetPlaylist plex (name pl), Items plex (name pl),
                          RemoveItems plex (name pl) old, AddItems plex (name pl) av]"
  using assms
  by (simp add: update_plex_playlist_def server_playlist_def playlist_items_def
      removeItems_def addItems_def Let_def emit_def remove_all_items)

lemma update_plex_playlist_append:
  assumes "\<forall>tr ev. updates_playlist ev \<longrightarrow> fault E tr ev = None"
    and "playlists w (name pl) = Some old"
  shows "\<exists>w'. update_plex_playlist E plex av pl True w = (Inr (plex, name pl), w') \<and>
    playlists w' = (playlists w)(name pl \<mapsto> old @ av) \<and>
    trace w' = trace w @ [GetPlaylist plex (name pl), AddItems plex (name pl) av]"
  using assms
  by (simp add: update_plex_playlist_def server_playlist_def addItems_def Let_def emit_def)

lemma set_description_items:
  "playlists (set_description E pp pl U w) = playlists w \<and>
   filter item_change (trace (set_description E pp pl U w)) = filter item_change (trace w)"
  by (simp add: set_description_def playlist_edit_def Let_def split: option.splits)

lemma set_poster_items:
  "playlists (set_poster E pp pl U w) = playlists w \<and>
   filter item_change (trace (set_poster E pp pl U w)) = filter item_change (trace w)"
  by (simp add: set_poster_def uploadPoster_def Let_def split: option.splits)

lemma update_plex_playlist_known:
  assumes "\<forall>tr ev. updates_playlist ev \<longrightarrow> fault E tr ev = None"
    and "playlists w (name pl) = Some old"
  shows "\<exists>w'. update_plex_playlist E plex av pl ap w = (Inr (plex, name pl), w') \<and>
    playlists w' = (playlists w)(name pl \<mapsto> (if ap then old @ av else av)) \<and>
    filter item_change (trace w') =
      filter item_change (trace w) @
        (if ap then [AddItems plex (name pl) av]
         else [RemoveItems plex (name pl) old, AddItems plex (name pl) av])"
proof (cases ap)
  case True
  from update_plex_playlist_append [OF assms, of plex av] obtain w' where
    "update_plex_playlist E plex av pl True w = (Inr (plex, name pl), w')"
    "playlists w' = (playlists w)(name pl \<mapsto> old @ av)"
    "trace w' = trace w @ [GetPlaylist plex (name pl), AddItems plex (name pl) av]"
    by (elim exE conjE)
  with True show ?thesis by simp
next
  case False
  from update_plex_playlist_sync [OF assms, of plex av] obtain w' where
    "update_plex_playlist E plex av pl False w = (Inr (plex, name pl), w')"
    "playlists w' = (playlists w)(name pl \<mapsto> av)"
    "trace w' = trace w @ [GetPlaylist plex (name pl), Items plex (name pl),
                          RemoveItems plex (name pl) old, AddItems plex (name pl) av]"
    by (elim exE conjE)
  with False show ?thesis by simp
qed

lemma apply_playlist_known:
  assumes "\<forall>tr ev. updates_playlist ev \<longrightarrow> fault E tr ev = None"
    and "playlists w (name pl) = Some old" and "av \<noteq> []"
  shows "\<exists>w'. apply_playlist E plex pl av U w = (Inr (), w') \<and>
    playlists w' =
      (playlists w)(name pl \<mapsto> (if append_instead_of_sync U then old @ av else av)) \<and>
    filter item_change (trace w') =
      filter item_change (trace w) @
        (if append_instead_of_sync U then [AddItems plex (name pl) av]
         else [RemoveItems plex (name pl) old, AddItems plex (name pl) av])"
proof -
  from update_plex_playlist_known [OF assms(1,2), of plex av "append_instead_of_sync U"]
  obtain wu where
    u: "update_plex_playlist E plex av pl (append_instead_of_sync U) w = (Inr (plex, name pl), wu)"
    and p: "playlists wu =
      (playlists w)(name pl \<mapsto> (if append_instead_of_sync U then old @ av else av))"
    and t: "filter item_change (trace wu) =
      filter item_change (trace w) @
        (if append_instead_of_sync U then [AddItems plex (name pl) av]
         else [RemoveItems plex (name pl) old, AddItems plex (name pl) av])"
    by (elim exE conjE)
  let ?w1 = "logging_info ''Updated playlist %s'' [name pl] wu"
  let ?w2 = "logging_info ''Updated playlist %s with summary and poster'' [name pl]
      (set_poster E (plex, name pl) pl U (set_description E (plex, name pl) pl U ?w1))"
  have a: "apply_playlist E plex pl av U w = (Inr (), ?w2)"
    using assms(3) u by (simp add: apply_playlist_def update_or_create_def)
  have b: "playlists ?w2 = playlists wu"
    by (simp add: set_poster_items set_description_items)
  have c: "filter item_change (trace ?w2) = filter item_change (trace wu)"
    by (simp add: set_poster_items set_description_items)
  from a b c p t show ?thesis by simp
qed

text \<open>
  Claim C4.  When the tracks are resolved to a non-empty list, a playlist of the given
  name exists with items \<open>old\<close>, and the calls that look it up, read it and change
  its items do not fail, the pass returns normally.  Under the sync policy it removes
  the items \<open>old\<close> and then adds the resolved items, and the playlist ends up with
  exactly the resolved items.  Under the append policy it only adds the resolved items,
  and the playlist ends up with \<open>old\<close> followed by them.  No other playlist is
  changed and the pass makes no other change of items.
\<close>

theorem sync_replaces_append_adds:
  "(\<forall>tr ev. updates_playlist ev \<longrightarrow> fault E tr ev = None) \<and>
   get_available_plex_tracks E plex tracks U w = Some (Inr (resolved, missing), w1) \<and>
   resolved \<noteq> [] \<and> playlists w (name pl) = Some old \<longrightarrow>
     (\<exists>w'. update_or_create_plex_playlist E plex pl tracks U w = Some (Inr (), w') \<and>
        playlists w' =
          (playlists w)(name pl \<mapsto>
             (if append_instead_of_sync U then old @ resolved else resolved)) \<and>
        filter item_change (trace w') =
          filter item_change (trace w) @
            (if append_instead_of_sync U then [AddItems plex (name pl) resolved]
             else [RemoveItems plex (name pl) old, AddItems plex (name pl) resolved]))"
proof
  assume a: "(\<forall>tr ev. updates_playlist ev \<longrightarrow> fault E tr ev = None) \<and>
   get_available_plex_tracks E plex tracks U w = Some (Inr (resolved, missing), w1) \<and>
   resolved \<noteq> [] \<and> playlists w (name pl) = Some old"
  then have nf: "\<forall>tr ev. updates_playlist ev \<longrightarrow> fault E tr ev = None"
    and g: "get_available_plex_tracks E plex tracks U w = Some (Inr (resolved, missing), w1)"
    and ne: "resolved \<noteq> []" and old: "playlists w (name pl) = Some old"
    by simp_all
  from get_available_plex_tracks_same_stores [OF g]
  have s: "playlists w1 = playlists w"
    "filter playlist_call (trace w1) = filter playlist_call (trace w)"
    by (simp_all add: same_stores_def)
  from s(2) have s2: "filter item_change (trace w1) = filter item_change (trace w)"
    by (rule item_changes_eq)
  from old s have old1: "playlists w1 (name pl) = Some old" by simp
  from apply_playlist_known [OF nf old1 ne, of plex U] obtain w2 where
    ap: "apply_playlist E plex pl resolved U w1 = (Inr (), w2)"
    and p2: "playlists w2 =
      (playlists w1)(name pl \<mapsto> (if append_instead_of_sync U then old @ resolved else resolved))"
    and t2: "filter item_change (trace w2) =
      filter item_change (trace w1) @
        (if append_instead_of_sync U then [AddItems plex (name pl) resolved]
         else [RemoveItems plex (name pl) old, AddItems plex (name pl) resolved])"
    by (elim exE conjE)
  let ?w' = "delete_missing E pl missing U (write_missing E pl missing U w2)"
  have r: "update_or_create_plex_playlist E plex pl tracks U w = Some (Inr (), ?w')"
    by (simp add: update_or_create_plex_playlist_def g ap)
  have p: "playlists ?w' = playlists w2"
    by (simp add: write_missing_frame delete_missing_frame)
  have "filter playlist_call (trace ?w') = filter playlist_call (trace w2)"
    by (simp add: write_missing_frame delete_missing_frame)
  then have t: "filter item_change (trace ?w') = filter item_change (trace w2)"
    by (rule item_changes_eq)
  show "\<exists>w'. update_or_create_plex_playlist E plex pl tracks U w = Some (Inr (), w') \<and>
        playlists w' =
          (playlists w)(name pl \<mapsto>
             (if append_instead_of_sync U then old @ resolved else resolved)) \<and>
        filter item_change (trace w') =
          filter item_change (trace w) @
            (if append_instead_of_sync U then [AddItems plex (name pl) resolved]
             else [RemoveItems plex (name pl) old, AddItems plex (name pl) resolved])"
    by (intro exI [of _ ?w'] conjI) (simp_all only: r p t p2 t2 s s2)
qed

theorem sync_replaces_append_adds_witness:
  "fault ex_calm = (\<lambda>tr ev. None) \<and>
   playlists ex_world_gold (name ex_playlist) = Some [unrelated] \<and>
   get_available_plex_tracks ex_calm 0 [ex_track] ex_inputs ex_world_gold =
     Some (Inr ([abba], []),
           ex_world_gold\<lparr>trace := [Search 0 ''Dancing Queen'' ''track'' 5]\<rparr>) \<and>
   append_instead_of_sync ex_inputs = False \<and>
   map_option ((\<lambda>w. (playlists w ''ABBA Gold'', filter item_change (trace w))) \<circ> snd)
     (update_or_create_plex_playlist ex_calm 0 ex_playlist [ex_track] ex_inputs ex_world_gold) =
     Some (Some [abba],
           [RemoveItems 0 ''ABBA Gold'' [unrelated], AddItems 0 ''ABBA Gold'' [abba]]) \<and>
   get_available_plex_tracks ex_calm 0 [ex_track] ex_inputs_append ex_world_gold =
     Some (Inr ([abba], []),
           ex_world_gold\<lparr>trace := [Search 0 ''Dancing Queen'' ''track'' 5]\<rparr>) \<and>
   append_instead_of_sync ex_inputs_append = True \<and>
   map_option ((\<lambda>w. (playlists w ''ABBA Gold'', filter item_change (trace w))) \<circ> snd)
     (update_or_create_plex_playlist ex_calm 0 ex_playlist [ex_track] ex_inputs_append
        ex_world_gold) =
     Some (Some [unrelated, abba], [AddItems 0 ''ABBA Gold'' [abba]])"
proof -
  have nf: "\<forall>tr ev. updates_playlist ev \<longrightarrow> fault ex_calm tr ev = None"
    by (simp add: ex_calm_def)
  have old: "playlists ex_world_gold (name ex_playlist) = Some [unrelated]"
    by (simp add: ex_world_gold_def ex_playlist_def)
  have ne: "[abba] \<noteq> []" by simp
  have g1: "get_available_plex_tracks ex_calm 0 [ex_track] ex_inputs ex_world_gold =
     Some (Inr ([abba], []),
           ex_world_gold\<lparr>trace := [Search 0 ''Dancing Queen'' ''track'' 5]\<rparr>)"
    by (simp add: get_available_plex_tracks_def track_body_def retry_search_def
        saveSearch.simps ex_track_def abba_def ex_world_gold_def ex_defs
        ascii_lower_def difflib_quick_ratio_def)
  have g2: "get_available_plex_tracks ex_calm 0 [ex_track] ex_inputs_append ex_world_gold =
     Some (Inr ([abba], []),
           ex_world_gold\<lparr>trace := [Search 0 ''Dancing Queen'' ''track'' 5]\<rparr>)"
    by (simp add: get_available_plex_tracks_def track_body_def retry_search_def
        saveSearch.simps ex_track_def abba_def ex_world_gold_def ex_inputs_append_def ex_defs
        ascii_lower_def difflib_quick_ratio_def)
  have a1: "append_instead_of_sync ex_inputs = False"
    by (simp add: ex_inputs_def)
  have a2: "append_instead_of_sync ex_inputs_append = True"
    by (simp add: ex_inputs_append_def)
  have tr0: "filter item_change (trace ex_world_gold) = []"
    by (simp add: ex_world_gold_def ex_world_def)
  have nm: "name ex_playlist = ''ABBA Gold''"
    by (simp add: ex_playlist_def)
  note t1 = sync_replaces_append_adds [rule_format, OF conjI, OF nf conjI, OF g1 conjI,
      OF ne old]
  have e1: "map_option ((\<lambda>w. (playlists w ''ABBA Gold'', filter item_change (trace w))) \<circ> snd)
     (update_or_create_plex_playlist ex_calm 0 ex_playlist [ex_track] ex_inputs ex_world_gold) =
     Some (Some [abba],
           [RemoveItems 0 ''ABBA Gold'' [unrelated], AddItems 0 ''ABBA Gold'' [abba]])"
    using t1 by (elim exE conjE) (simp add: a1 tr0 nm)
  note t2 = sync_replaces_append_adds [rule_format, OF conjI, OF nf conjI, OF g2 conjI,
      OF ne old]
  have e2: "map_option ((\<lambda>w. (playlists w ''ABBA Gold'', filter item_change (trace w))) \<circ> snd)
     (update_or_create_plex_playlist ex_calm 0 ex_playlist [ex_track] ex_inputs_append
        ex_world_gold) =
     Some (Some [unrelated, abba], [AddItems 0 ''ABBA Gold'' [abba]])"
    using t2 by (elim exE conjE) (simp add: a2 tr0 nm)
  have nf': "fault ex_calm = (\<lambda>tr ev. None)"
    by (simp add: ex_calm_def)
  from nf' old g1 a1 e1 g2 a2 e2 show ?thesis by simp
qed

end
